theory Spec2Isabelle
  imports Complex_Main "HOL-Library.AList"
begin

section \<open>JavaScript values\<close>

text \<open>
  Both programs of the repository, the terminal monitor
  (\<^verbatim>\<open>src/comprehensive-monitor.js\<close>, class \<^verbatim>\<open>ComprehensiveMonitor\<close>) and the
  dashboard WebSocket server (class \<^verbatim>\<open>DashboardServer\<close>), keep what \<^verbatim>\<open>JSON.parse\<close>
  returns. A value is modelled structurally; an object is the list of its own properties,
  read through \<open>map_of\<close>. Numbers are real numbers (the rounding of IEEE doubles is left
  out), a \<^verbatim>\<open>Date\<close> is its millisecond count.
\<close>

type_synonym time = nat

datatype jsval =
    JUndefined
  | JNull
  | JBool bool
  | JNum real
  | JStr string
  | JDate time
  | JArr "jsval list"
  | JObj "(string \<times> jsval) list"

type_synonym jsobj = "(string \<times> jsval) list"

datatype error = SyntaxError | TypeError

text \<open>
  A bus message is the text Redis delivers. Of the text only the outcome of
  \<^verbatim>\<open>JSON.parse\<close> matters to the handlers: it throws a \<^verbatim>\<open>SyntaxError\<close> (\<open>Garbage\<close>) or
  returns the value the text denotes (\<open>Text v\<close>).
\<close>

datatype message = Garbage | Text jsval

fun JSON_parse :: "message \<Rightarrow> error + jsval" where
  "JSON_parse Garbage = Inl SyntaxError"
| "JSON_parse (Text v) = Inr v"

text \<open>
  Reading a property \<^verbatim>\<open>v.k\<close>. On \<^verbatim>\<open>null\<close> and \<^verbatim>\<open>undefined\<close> it throws a
  \<^verbatim>\<open>TypeError\<close>; on an object it yields the property or \<^verbatim>\<open>undefined\<close>. The handlers read
  the names \<^verbatim>\<open>type\<close>, \<^verbatim>\<open>eventId\<close>, \<^verbatim>\<open>nodeId\<close>, \<^verbatim>\<open>marketA\<close>, \<^verbatim>\<open>marketB\<close>,
  \<^verbatim>\<open>status\<close> and \<^verbatim>\<open>totalMarkets\<close> only, none of which a string, an array, a number or
  a boolean has: there the result is \<^verbatim>\<open>undefined\<close>.
\<close>

definition own_prop :: "jsobj \<Rightarrow> string \<Rightarrow> jsval" where
  "own_prop fs k = (case map_of fs k of None \<Rightarrow> JUndefined | Some v \<Rightarrow> v)"

fun get_prop :: "jsval \<Rightarrow> string \<Rightarrow> error + jsval" where
  "get_prop JUndefined k = Inl TypeError"
| "get_prop JNull k = Inl TypeError"
| "get_prop (JObj fs) k = Inr (own_prop fs k)"
| "get_prop v k = Inr JUndefined"

text \<open>Decimal digits of an array index, for the property names of a spread array or string.\<close>

fun show_nat :: "nat \<Rightarrow> string" where
  "show_nat n =
     (if n < 10 then [char_of (48 + n)]
      else show_nat (n div 10) @ [char_of (48 + n mod 10)])"

definition indexed :: "jsval list \<Rightarrow> jsobj" where
  "indexed xs = zip (map show_nat [0..<length xs]) xs"

text \<open>
  The own enumerable properties an object spread \<^verbatim>\<open>{...v}\<close> copies: those of an object,
  the elements of an array and the characters of a string under their indices, and
  nothing for the other values.
\<close>

fun spread :: "jsval \<Rightarrow> jsobj" where
  "spread (JObj fs) = fs"
| "spread (JArr xs) = indexed xs"
| "spread (JStr s) = indexed (map (\<lambda>c. JStr [c]) s)"
| "spread v = []"

text \<open>The object literal \<^verbatim>\<open>{...v, lastUpdate: new Date()}\<close>.\<close>

definition with_lastUpdate :: "jsval \<Rightarrow> time \<Rightarrow> jsobj" where
  "with_lastUpdate v now = AList.update ''lastUpdate'' (JDate now) (spread v)"

section \<open>Maps\<close>

text \<open>
  A JavaScript \<^verbatim>\<open>Map\<close> iterates in insertion order; \<^verbatim>\<open>set\<close> on a key that is present
  replaces the value in place and otherwise appends. The maps keyed by a channel segment
  (\<^verbatim>\<open>healthData\<close>, \<^verbatim>\<open>marketStatus\<close>) have string keys and use \<open>AList.update\<close>. The keys
  of \<^verbatim>\<open>orderbooksByNode\<close> and of its sub-maps come out of a payload and are compared as
  \<^verbatim>\<open>Map\<close> compares: primitives by value, objects and arrays by reference. Every key that
  the handlers look up is a string or belongs to a freshly parsed payload, so a reference
  key that is looked up equals no stored key. A map holds a key once, so \<^verbatim>\<open>delete\<close> is
  the removal of every entry under the key.
\<close>

fun is_ref :: "jsval \<Rightarrow> bool" where
  "is_ref (JObj fs) = True"
| "is_ref (JArr xs) = True"
| "is_ref (JDate t) = True"
| "is_ref v = False"

definition same_key :: "jsval \<Rightarrow> jsval \<Rightarrow> bool" where
  "same_key k k' = (\<not> is_ref k \<and> k = k')"

fun Map_has :: "jsval \<Rightarrow> (jsval \<times> 'v) list \<Rightarrow> bool" where
  "Map_has k [] = False"
| "Map_has k (p # ps) = (same_key k (fst p) \<or> Map_has k ps)"

fun Map_get :: "jsval \<Rightarrow> (jsval \<times> 'v) list \<Rightarrow> 'v option" where
  "Map_get k [] = None"
| "Map_get k (p # ps) = (if same_key k (fst p) then Some (snd p) else Map_get k ps)"

fun Map_set :: "jsval \<Rightarrow> 'v \<Rightarrow> (jsval \<times> 'v) list \<Rightarrow> (jsval \<times> 'v) list" where
  "Map_set k v [] = [(k, v)]"
| "Map_set k v (p # ps) = (if same_key k (fst p) then (k, v) # ps else p # Map_set k v ps)"

definition Map_delete :: "jsval \<Rightarrow> (jsval \<times> 'v) list \<Rightarrow> (jsval \<times> 'v) list" where
  "Map_delete k ps = filter (\<lambda>p. \<not> same_key k (fst p)) ps"

type_synonym orderbooks = "(jsval \<times> (jsval \<times> jsobj) list) list"

section \<open>The snapshot store shared by both programs\<close>

datatype log_entry =
    HealthUpdateError string
  | OrderbookUpdateError
  | MarketStatusError string
  | MarketDiscoveryError
  | SendError
  | CachedDataError
  | WebSocketError

text \<open>
  \<open>errors\<close> is the sequence of \<^verbatim>\<open>console.error\<close> calls made so far (the informational
  \<^verbatim>\<open>console.log\<close> lines are not recorded).
\<close>

record store =
  healthData :: "(string \<times> jsobj) list"
  orderbooksByNode :: orderbooks
  totalMarkets :: jsval
  errors :: "log_entry list"

definition console_error :: "log_entry \<Rightarrow> 'a store_scheme \<Rightarrow> 'a store_scheme" where
  "console_error e s = s\<lparr>errors := errors s @ [e]\<rparr>"

text \<open>
  The cache write of \<^verbatim>\<open>handleOrderbookUpdate\<close>:
  \<^verbatim>\<open>if (!m.has(nodeId)) m.set(nodeId, new Map()); m.get(nodeId).set(eventId, rec)\<close>.
\<close>

definition store_orderbook :: "jsval \<Rightarrow> jsval \<Rightarrow> jsobj \<Rightarrow> orderbooks \<Rightarrow> orderbooks" where
  "store_orderbook nodeId eventId rec m =
     (let nodeOrderbooks = (case Map_get nodeId m of None \<Rightarrow> [] | Some sub \<Rightarrow> sub)
      in Map_set nodeId (Map_set eventId rec nodeOrderbooks) m)"

text \<open>
  The eviction loop of \<^verbatim>\<open>handleMarketStatusUpdate\<close>:
  \<^verbatim>\<open>for (const [nodeId, nodeOrderbooks] of this.orderbooksByNode)
       if (nodeOrderbooks.has(eventId)) nodeOrderbooks.delete(eventId)\<close>.
\<close>

definition remove_market :: "string \<Rightarrow> orderbooks \<Rightarrow> orderbooks" where
  "remove_market eventId m =
     map (\<lambda>(nodeId, nodeOrderbooks).
            (nodeId, if Map_has (JStr eventId) nodeOrderbooks
                     then Map_delete (JStr eventId) nodeOrderbooks
                     else nodeOrderbooks)) m"

definition is_terminal :: "jsval \<Rightarrow> bool" where
  "is_terminal status = (status = JStr ''CLOSED'' \<or> status = JStr ''CLEARED'')"

section \<open>The terminal monitor\<close>

record monitor = store +
  marketStatus :: "(string \<times> jsobj) list"
  lastUpdateTime :: time

text \<open>The constructor; \<^verbatim>\<open>totalMarkets\<close> is not assigned there.\<close>

definition mon_init :: "time \<Rightarrow> monitor" where
  "mon_init now =
     \<lparr>healthData = [], orderbooksByNode = [], totalMarkets = JUndefined, errors = [],
      marketStatus = [], lastUpdateTime = now\<rparr>"

text \<open>
  Every handler takes the value \<open>now\<close> that \<^verbatim>\<open>new Date()\<close> returns while the handler
  runs (one reaction of the event loop is taken as instantaneous).
\<close>

definition mon_handleHealthUpdate :: "string \<Rightarrow> message \<Rightarrow> time \<Rightarrow> monitor \<Rightarrow> monitor" where
  "mon_handleHealthUpdate nodeId message now s =
     (case JSON_parse message of
        Inl e \<Rightarrow> console_error (HealthUpdateError nodeId) s
      | Inr health \<Rightarrow>
          s\<lparr>healthData := AList.update nodeId (with_lastUpdate health now) (healthData s),
            lastUpdateTime := now\<rparr>)"

definition mon_handleOrderbookUpdate :: "message \<Rightarrow> time \<Rightarrow> monitor \<Rightarrow> monitor" where
  "mon_handleOrderbookUpdate message now s =
     (case JSON_parse message of
        Inl e \<Rightarrow> console_error OrderbookUpdateError s
      | Inr data \<Rightarrow>
         (case get_prop data ''type'' of
            Inl e \<Rightarrow> console_error OrderbookUpdateError s
          | Inr ty \<Rightarrow>
             if ty \<noteq> JStr ''orderbook_update'' then s
             else
              (case get_prop data ''eventId'' of
                 Inl e \<Rightarrow> console_error OrderbookUpdateError s
               | Inr eventId \<Rightarrow>
                  (case get_prop data ''nodeId'' of
                     Inl e \<Rightarrow> console_error OrderbookUpdateError s
                   | Inr nodeId \<Rightarrow>
                      s\<lparr>orderbooksByNode :=
                           store_orderbook nodeId eventId (with_lastUpdate data now)
                             (orderbooksByNode s),
                        lastUpdateTime := now\<rparr>))))"

text \<open>
  The status record is written before \<^verbatim>\<open>statusData.status\<close> is read, so it stays when
  that read throws (a \<^verbatim>\<open>null\<close> payload).
\<close>

definition mon_handleMarketStatusUpdate :: "string \<Rightarrow> message \<Rightarrow> time \<Rightarrow> monitor \<Rightarrow> monitor" where
  "mon_handleMarketStatusUpdate eventId message now s =
     (case JSON_parse message of
        Inl e \<Rightarrow> console_error (MarketStatusError eventId) s
      | Inr statusData \<Rightarrow>
         (let s1 = s\<lparr>marketStatus :=
                       AList.update eventId (with_lastUpdate statusData now) (marketStatus s)\<rparr>
          in case get_prop statusData ''status'' of
               Inl e \<Rightarrow> console_error (MarketStatusError eventId) s1
             | Inr status \<Rightarrow>
                 (if is_terminal status
                  then s1\<lparr>orderbooksByNode := remove_market eventId (orderbooksByNode s1)\<rparr>
                  else s1)\<lparr>lastUpdateTime := now\<rparr>))"

definition mon_handleMarketDiscovery :: "message \<Rightarrow> time \<Rightarrow> monitor \<Rightarrow> monitor" where
  "mon_handleMarketDiscovery message now s =
     (case JSON_parse message of
        Inl e \<Rightarrow> console_error MarketDiscoveryError s
      | Inr discoveryData \<Rightarrow>
         (case get_prop discoveryData ''totalMarkets'' of
            Inl e \<Rightarrow> console_error MarketDiscoveryError s
          | Inr n \<Rightarrow> s\<lparr>totalMarkets := n, lastUpdateTime := now\<rparr>))"

section \<open>The dashboard server\<close>

text \<open>
  The objects handed to \<^verbatim>\<open>broadcast\<close> and to \<^verbatim>\<open>client.send\<close>, before
  \<^verbatim>\<open>JSON.stringify\<close>. The arguments are the properties in the order of the source:
  \<^verbatim>\<open>health_update{nodeId, health, timestamp}\<close>,
  \<^verbatim>\<open>orderbook_update{eventId, nodeId, marketA, marketB, timestamp}\<close>,
  \<^verbatim>\<open>market_removed{eventId, status, timestamp}\<close>,
  \<^verbatim>\<open>market_discovery{totalMarkets, timestamp}\<close>.
\<close>

datatype event =
    health_update string jsval time
  | orderbook_update jsval jsval jsval jsval time
  | market_removed string jsval time
  | market_discovery jsval time

datatype ready_state = CONNECTING | OPEN | CLOSING | CLOSED

text \<open>
  A WebSocket of the \<^verbatim>\<open>ws\<close> library, which is not part of the repository. Whether a
  call of \<^verbatim>\<open>send\<close> throws is decided outside the program: \<open>fails c n\<close> tells it for
  the \<open>n\<close>-th call on \<open>c\<close>. \<open>sent\<close> lists the events that \<^verbatim>\<open>send\<close> accepted
  without throwing, oldest first.
\<close>

record client =
  cid :: nat
  readyState :: ready_state
  fails :: "nat \<Rightarrow> bool"
  attempts :: nat
  sent :: "event list"

definition send :: "event \<Rightarrow> client \<Rightarrow> bool \<times> client" where
  "send data c =
     (if fails c (attempts c) then (False, c\<lparr>attempts := Suc (attempts c)\<rparr>)
      else (True, c\<lparr>attempts := Suc (attempts c), sent := sent c @ [data]\<rparr>))"

text \<open>
  \<open>emitted\<close> is the sequence of calls of \<^verbatim>\<open>broadcast\<close> made so far: one entry for each
  fan-out event, whoever is attached. The dashboard server has no \<^verbatim>\<open>marketStatus\<close> map,
  and its constructor sets \<^verbatim>\<open>totalMarkets\<close> to 0.
\<close>

record dashboard = store +
  clients :: "client list"
  emitted :: "event list"

definition dash_init :: dashboard where
  "dash_init =
     \<lparr>healthData = [], orderbooksByNode = [], totalMarkets = JNum 0, errors = [],
      clients = [], emitted = []\<rparr>"

text \<open>
  The body of \<^verbatim>\<open>this.clients.forEach\<close> in \<^verbatim>\<open>broadcast\<close>: a client that is not
  \<^verbatim>\<open>OPEN\<close> is passed over; a client whose \<^verbatim>\<open>send\<close> throws is logged and deleted from
  the set, and the iteration goes on with the next one.
\<close>

fun forEach_send :: "event \<Rightarrow> client list \<Rightarrow> client list \<times> log_entry list" where
  "forEach_send data [] = ([], [])"
| "forEach_send data (c # cs) =
     (let (cs', errs) = forEach_send data cs
      in if readyState c = OPEN
         then (if fst (send data c) then (snd (send data c) # cs', errs)
               else (cs', SendError # errs))
         else (c # cs', errs))"

definition broadcast :: "event \<Rightarrow> dashboard \<Rightarrow> dashboard" where
  "broadcast data s =
     (let (cs, errs) = forEach_send data (clients s)
      in s\<lparr>clients := cs, errors := errors s @ errs, emitted := emitted s @ [data]\<rparr>)"

definition dash_handleHealthUpdate :: "string \<Rightarrow> message \<Rightarrow> time \<Rightarrow> dashboard \<Rightarrow> dashboard" where
  "dash_handleHealthUpdate nodeId message now s =
     (case JSON_parse message of
        Inl e \<Rightarrow> console_error (HealthUpdateError nodeId) s
      | Inr health \<Rightarrow>
          broadcast (health_update nodeId health now)
            (s\<lparr>healthData :=
                 AList.update nodeId (with_lastUpdate health now) (healthData s)\<rparr>))"

text \<open>
  Past the test of \<^verbatim>\<open>data.type\<close> the payload is an object, so \<^verbatim>\<open>data.marketA\<close> and
  \<^verbatim>\<open>data.marketB\<close> are read among its own properties.
\<close>

definition dash_handleOrderbookUpdate :: "message \<Rightarrow> time \<Rightarrow> dashboard \<Rightarrow> dashboard" where
  "dash_handleOrderbookUpdate message now s =
     (case JSON_parse message of
        Inl e \<Rightarrow> console_error OrderbookUpdateError s
      | Inr data \<Rightarrow>
         (case get_prop data ''type'' of
            Inl e \<Rightarrow> console_error OrderbookUpdateError s
          | Inr ty \<Rightarrow>
             if ty \<noteq> JStr ''orderbook_update'' then s
             else
              (case get_prop data ''eventId'' of
                 Inl e \<Rightarrow> console_error OrderbookUpdateError s
               | Inr eventId \<Rightarrow>
                  (case get_prop data ''nodeId'' of
                     Inl e \<Rightarrow> console_error OrderbookUpdateError s
                   | Inr nodeId \<Rightarrow>
                      broadcast
                        (orderbook_update eventId nodeId
                           (own_prop (spread data) ''marketA'')
                           (own_prop (spread data) ''marketB'') now)
                        (s\<lparr>orderbooksByNode :=
                             store_orderbook nodeId eventId (with_lastUpdate data now)
                               (orderbooksByNode s)\<rparr>)))))"

text \<open>
  No status record is written here: the eviction and the \<^verbatim>\<open>market_removed\<close> broadcast
  are all that a status message does to the dashboard server.
\<close>

definition dash_handleMarketStatusUpdate :: "string \<Rightarrow> message \<Rightarrow> time \<Rightarrow> dashboard \<Rightarrow> dashboard" where
  "dash_handleMarketStatusUpdate eventId message now s =
     (case JSON_parse message of
        Inl e \<Rightarrow> console_error (MarketStatusError eventId) s
      | Inr statusData \<Rightarrow>
         (case get_prop statusData ''status'' of
            Inl e \<Rightarrow> console_error (MarketStatusError eventId) s
          | Inr status \<Rightarrow>
              if is_terminal status
              then broadcast (market_removed eventId status now)
                     (s\<lparr>orderbooksByNode := remove_market eventId (orderbooksByNode s)\<rparr>)
              else s))"

definition dash_handleMarketDiscovery :: "message \<Rightarrow> time \<Rightarrow> dashboard \<Rightarrow> dashboard" where
  "dash_handleMarketDiscovery message now s =
     (case JSON_parse message of
        Inl e \<Rightarrow> console_error MarketDiscoveryError s
      | Inr discoveryData \<Rightarrow>
         (case get_prop discoveryData ''totalMarkets'' of
            Inl e \<Rightarrow> console_error MarketDiscoveryError s
          | Inr n \<Rightarrow> broadcast (market_discovery n now) (s\<lparr>totalMarkets := n\<rparr>)))"

subsection \<open>Cold-start replay and the connection callbacks\<close>


definition cached_health :: "time \<Rightarrow> 'a store_scheme \<Rightarrow> event list" where
  "cached_health now s =
     map (\<lambda>(nodeId, health). health_update nodeId (JObj health) now) (healthData s)"

definition cached_orderbooks :: "time \<Rightarrow> 'a store_scheme \<Rightarrow> event list" where
  "cached_orderbooks now s =
     concat (map (\<lambda>(nodeId, nodeOrderbooks).
                    map (\<lambda>(eventId, orderbookData).
                           orderbook_update eventId nodeId
                             (own_prop orderbookData ''marketA'')
                             (own_prop orderbookData ''marketB'') now)
                        nodeOrderbooks)
                 (orderbooksByNode s))"





definition Set_delete :: "nat \<Rightarrow> client list \<Rightarrow> client list" where
  "Set_delete i cs = filter (\<lambda>c. cid c \<noteq> i) cs"


definition ws_on_close :: "nat \<Rightarrow> dashboard \<Rightarrow> dashboard" where
  "ws_on_close i s = s\<lparr>clients := Set_delete i (clients s)\<rparr>"

definition ws_on_error :: "nat \<Rightarrow> dashboard \<Rightarrow> dashboard" where
  "ws_on_error i s = (console_error WebSocketError s)\<lparr>clients := Set_delete i (clients s)\<rparr>"

subsection \<open>Demo mode\<close>

text \<open>
  \<^verbatim>\<open>startDemoMode\<close>, entered when the Redis connection fails: three health records, one
  order book on each of two nodes, and a total of 25.
\<close>

definition level :: "real \<Rightarrow> real \<Rightarrow> real \<Rightarrow> jsval" where
  "level p q c = JObj [(''price'', JNum p), (''quantity'', JNum q), (''count'', JNum c)]"

definition demo_health :: "real \<Rightarrow> real \<Rightarrow> real \<Rightarrow> real \<Rightarrow> real \<Rightarrow> real \<Rightarrow> time \<Rightarrow> jsobj" where
  "demo_health cpu mem markets cores load disk now =
     [(''cpuUsage'', JNum cpu), (''memoryUsage'', JNum mem), (''activeMarkets'', JNum markets),
      (''cpuCores'', JNum cores), (''loadAverage'', JNum load), (''freeDiskSpaceMB'', JNum disk),
      (''isHealthy'', JBool True), (''lastUpdate'', JDate now)]"

definition demo_market :: "string \<Rightarrow> jsval list \<Rightarrow> jsval list \<Rightarrow> real \<Rightarrow> real \<Rightarrow> real \<Rightarrow> jsval" where
  "demo_market marketId bids asks bestBid bestAsk totalOrders =
     JObj [(''marketId'', JStr marketId), (''bids'', JArr bids), (''asks'', JArr asks),
           (''bestBid'', JNum bestBid), (''bestAsk'', JNum bestAsk),
           (''totalOrders'', JNum totalOrders)]"

definition sampleOrderbook :: "time \<Rightarrow> jsobj" where
  "sampleOrderbook now =
     [(''eventId'', JStr ''DEMO_EVENT_001''), (''nodeId'', JStr ''100.70.127.124''),
      (''marketA'', demo_market ''YES''
          [level 45 1000 3, level 44 1500 5, level 43 800 2]
          [level 47 800 2, level 48 1200 4, level 49 600 1] 45 47 14),
      (''marketB'', demo_market ''NO''
          [level 52 900 2, level 51 1100 3, level 50 700 2]
          [level 54 700 2, level 55 1000 3, level 56 500 1] 52 54 10),
      (''lastUpdate'', JDate now)]"

definition sampleOrderbook2 :: "time \<Rightarrow> jsobj" where
  "sampleOrderbook2 now =
     [(''eventId'', JStr ''DEMO_EVENT_002''), (''nodeId'', JStr ''100.70.127.125''),
      (''marketA'', demo_market ''YES''
          [level 62 750 2, level 61 900 4]
          [level 64 650 3, level 65 800 2] 62 64 11),
      (''marketB'', demo_market ''NO''
          [level 35 1200 3, level 34 800 2]
          [level 37 900 2, level 38 1100 4] 35 37 11),
      (''lastUpdate'', JDate now)]"

definition startDemoMode :: "time \<Rightarrow> dashboard \<Rightarrow> dashboard" where
  "startDemoMode now s =
     s\<lparr>healthData :=
         AList.update ''192.168.1.100'' (demo_health 28.5 42.1 6 4 1.22 28000 now)
          (AList.update ''100.70.127.125'' (demo_health 32.1 54.3 8 4 1.87 32000 now)
            (AList.update ''100.70.127.124'' (demo_health 45.2 67.8 12 8 2.34 45000 now)
              (healthData s))),
       orderbooksByNode :=
         Map_set (JStr ''100.70.127.125'') [(JStr ''DEMO_EVENT_002'', sampleOrderbook2 now)]
          (Map_set (JStr ''100.70.127.124'') [(JStr ''DEMO_EVENT_001'', sampleOrderbook now)]
            (orderbooksByNode s)),
       totalMarkets := JNum 25\<rparr>"

text \<open>
  \<^verbatim>\<open>updateDemoData\<close>, run every five seconds in demo mode. \<open>rnd n\<close> is what the \<open>n\<close>-th
  call of \<^verbatim>\<open>Math.random()\<close> of the tick returns. The arithmetic is modelled on the shapes
  the demo data has: a number under \<^verbatim>\<open>cpuUsage\<close> and under \<^verbatim>\<open>memoryUsage\<close>, an object under
  \<^verbatim>\<open>marketA\<close> whose \<^verbatim>\<open>bids\<close> and \<^verbatim>\<open>asks\<close> are arrays of objects with a numeric
  \<^verbatim>\<open>price\<close>. On any other shape JavaScript would coerce the operands or throw a
  \<^verbatim>\<open>TypeError\<close>; the model does not follow it there and answers \<open>None\<close>.
\<close>

text \<open>\<^verbatim>\<open>Math.max(0, Math.min(100, x))\<close>.\<close>

definition clamp_percent :: "real \<Rightarrow> real" where
  "clamp_percent x = max 0 (min 100 x)"

definition perturb_health :: "real \<Rightarrow> real \<Rightarrow> time \<Rightarrow> jsobj \<Rightarrow> jsobj option" where
  "perturb_health r1 r2 now health =
     (case own_prop health ''cpuUsage'' of
        JNum cpu \<Rightarrow>
          (let health1 =
                 AList.update ''cpuUsage'' (JNum (clamp_percent (cpu + (r1 - 0.5) * 10))) health
           in case own_prop health1 ''memoryUsage'' of
                JNum mem \<Rightarrow>
                  Some (AList.update ''lastUpdate'' (JDate now)
                         (AList.update ''memoryUsage''
                            (JNum (clamp_percent (mem + (r2 - 0.5) * 5))) health1))
              | _ \<Rightarrow> None)
      | _ \<Rightarrow> None)"

fun health_loop ::
    "(nat \<Rightarrow> real) \<Rightarrow> nat \<Rightarrow> time \<Rightarrow> (string \<times> jsobj) list \<Rightarrow> dashboard
       \<Rightarrow> ((string \<times> jsobj) list \<times> dashboard) option" where
  "health_loop rnd i now [] s = Some ([], s)"
| "health_loop rnd i now (entry # entries) s =
     (case perturb_health (rnd i) (rnd (Suc i)) now (snd entry) of
        None \<Rightarrow> None
      | Some health \<Rightarrow>
         (case health_loop rnd (i + 2) now entries
                 (broadcast (health_update (fst entry) (JObj health) now) s) of
            None \<Rightarrow> None
          | Some (entries', s') \<Rightarrow> Some ((fst entry, health) # entries', s')))"

text \<open>
  One of the two blocks
  \<^verbatim>\<open>if (m.bids.length > 0) { m.bids[0].price += Math.random() > 0.5 ? 1 : -1;
       m.bestBid = m.bids[0].price; }\<close>,
  for \<open>side\<close> = \<^verbatim>\<open>bids\<close>, \<open>best\<close> = \<^verbatim>\<open>bestBid\<close> and for \<^verbatim>\<open>asks\<close>, \<^verbatim>\<open>bestAsk\<close>. The
  result carries the index of the next random number.
\<close>

definition shift_top ::
    "string \<Rightarrow> string \<Rightarrow> (nat \<Rightarrow> real) \<Rightarrow> nat \<Rightarrow> jsobj \<Rightarrow> (nat \<times> jsobj) option" where
  "shift_top side best rnd i market =
     (case own_prop market side of
        JArr levels \<Rightarrow>
          (if length levels > 0
           then (case levels of
                   JObj first # rest \<Rightarrow>
                     (case own_prop first ''price'' of
                        JNum price \<Rightarrow>
                          (let price' = price + (if rnd i > 0.5 then 1 else - 1)
                           in Some (Suc i,
                                AList.update best (JNum price')
                                  (AList.update side
                                     (JArr (JObj (AList.update ''price'' (JNum price') first) # rest))
                                     market)))
                      | _ \<Rightarrow> None)
                 | _ \<Rightarrow> None)
           else Some (i, market))
      | _ \<Rightarrow> None)"

definition perturb_orderbook ::
    "(nat \<Rightarrow> real) \<Rightarrow> nat \<Rightarrow> time \<Rightarrow> jsobj \<Rightarrow> (nat \<times> jsobj) option" where
  "perturb_orderbook rnd i now orderbook =
     (case own_prop orderbook ''marketA'' of
        JObj marketA \<Rightarrow>
          (case shift_top ''bids'' ''bestBid'' rnd i marketA of
             None \<Rightarrow> None
           | Some (j, marketA1) \<Rightarrow>
               (case shift_top ''asks'' ''bestAsk'' rnd j marketA1 of
                  None \<Rightarrow> None
                | Some (k, marketA2) \<Rightarrow>
                    Some (k, AList.update ''lastUpdate'' (JDate now)
                               (AList.update ''marketA'' (JObj marketA2) orderbook))))
      | _ \<Rightarrow> None)"

fun orderbook_loop ::
    "(nat \<Rightarrow> real) \<Rightarrow> nat \<Rightarrow> time \<Rightarrow> jsval \<Rightarrow> (jsval \<times> jsobj) list \<Rightarrow> dashboard
       \<Rightarrow> (nat \<times> (jsval \<times> jsobj) list \<times> dashboard) option" where
  "orderbook_loop rnd i now nodeId [] s = Some (i, [], s)"
| "orderbook_loop rnd i now nodeId (entry # entries) s =
     (case perturb_orderbook rnd i now (snd entry) of
        None \<Rightarrow> None
      | Some (j, orderbook) \<Rightarrow>
         (case orderbook_loop rnd j now nodeId entries
                 (broadcast (orderbook_update (fst entry) nodeId
                               (own_prop orderbook ''marketA'')
                               (own_prop orderbook ''marketB'') now) s) of
            None \<Rightarrow> None
          | Some (k, entries', s') \<Rightarrow> Some (k, (fst entry, orderbook) # entries', s')))"

fun node_loop ::
    "(nat \<Rightarrow> real) \<Rightarrow> nat \<Rightarrow> time \<Rightarrow> orderbooks \<Rightarrow> dashboard
       \<Rightarrow> (nat \<times> orderbooks \<times> dashboard) option" where
  "node_loop rnd i now [] s = Some (i, [], s)"
| "node_loop rnd i now (node # nodes) s =
     (case orderbook_loop rnd i now (fst node) (snd node) s of
        None \<Rightarrow> None
      | Some (j, nodeOrderbooks, s1) \<Rightarrow>
         (case node_loop rnd j now nodes s1 of
            None \<Rightarrow> None
          | Some (k, nodes', s2) \<Rightarrow> Some (k, (fst node, nodeOrderbooks) # nodes', s2)))"

definition updateDemoData :: "(nat \<Rightarrow> real) \<Rightarrow> time \<Rightarrow> dashboard \<Rightarrow> dashboard option" where
  "updateDemoData rnd now s =
     (case health_loop rnd 0 now (healthData s) s of
        None \<Rightarrow> None
      | Some (health', s1) \<Rightarrow>
         (let s2 = s1\<lparr>healthData := health'\<rparr>;
              i = 2 * length (healthData s)
          in if rnd i < 0.3
             then (case node_loop rnd (Suc i) now (orderbooksByNode s2) s2 of
                     None \<Rightarrow> None
                   | Some (k, books', s3) \<Rightarrow> Some (s3\<lparr>orderbooksByNode := books'\<rparr>))
             else Some s2))"

section \<open>The subscriptions\<close>

text \<open>
  What \<^verbatim>\<open>setupSubscriptions\<close> and \<^verbatim>\<open>setupRedisSubscriptions\<close> register: a message on
  \<^verbatim>\<open>metrics:*\<close> and on \<^verbatim>\<open>market_status:*\<close> carries the identifier of its channel, a
  message on \<^verbatim>\<open>orderbooks\<close> and on \<^verbatim>\<open>market_discovery\<close> does not.
\<close>

datatype bus_message =
    Metrics string message
  | Orderbooks message
  | Market_status string message
  | Market_discovery message

fun payload :: "bus_message \<Rightarrow> message" where
  "payload (Metrics nodeId m) = m"
| "payload (Orderbooks m) = m"
| "payload (Market_status eventId m) = m"
| "payload (Market_discovery m) = m"

fun mon_on_message :: "bus_message \<Rightarrow> time \<Rightarrow> monitor \<Rightarrow> monitor" where
  "mon_on_message (Metrics nodeId m) now s = mon_handleHealthUpdate nodeId m now s"
| "mon_on_message (Orderbooks m) now s = mon_handleOrderbookUpdate m now s"
| "mon_on_message (Market_status eventId m) now s = mon_handleMarketStatusUpdate eventId m now s"
| "mon_on_message (Market_discovery m) now s = mon_handleMarketDiscovery m now s"

fun dash_on_message :: "bus_message \<Rightarrow> time \<Rightarrow> dashboard \<Rightarrow> dashboard" where
  "dash_on_message (Metrics nodeId m) now s = dash_handleHealthUpdate nodeId m now s"
| "dash_on_message (Orderbooks m) now s = dash_handleOrderbookUpdate m now s"
| "dash_on_message (Market_status eventId m) now s = dash_handleMarketStatusUpdate eventId m now s"
| "dash_on_message (Market_discovery m) now s = dash_handleMarketDiscovery m now s"

text \<open>Messages processed one after the other, each at its own time.\<close>

definition mon_run :: "(bus_message \<times> time) list \<Rightarrow> monitor \<Rightarrow> monitor" where
  "mon_run ms s = foldl (\<lambda>s m. mon_on_message (fst m) (snd m) s) s ms"

definition dash_run :: "(bus_message \<times> time) list \<Rightarrow> dashboard \<Rightarrow> dashboard" where
  "dash_run ms s = foldl (\<lambda>s m. dash_on_message (fst m) (snd m) s) s ms"

section \<open>Notions used to state the properties\<close>

text \<open>A sequence of health events for one node: payloads that parsed, each with its time.\<close>

definition health_events :: "string \<Rightarrow> (jsval \<times> time) list \<Rightarrow> (bus_message \<times> time) list" where
  "health_events nodeId es = map (\<lambda>e. (Metrics nodeId (Text (fst e)), snd e)) es"

text \<open>A status message is terminal when it parses and its \<^verbatim>\<open>status\<close> is CLOSED or CLEARED.\<close>

definition terminal_message :: "message \<Rightarrow> bool" where
  "terminal_message m =
     (case JSON_parse m of
        Inl e \<Rightarrow> False
      | Inr v \<Rightarrow> (case get_prop v ''status'' of Inl e \<Rightarrow> False | Inr status \<Rightarrow> is_terminal status))"

text \<open>The one \<^verbatim>\<open>console.error\<close> line a handler writes when its payload does not parse.\<close>

fun parse_error :: "bus_message \<Rightarrow> log_entry" where
  "parse_error (Metrics nodeId m) = HealthUpdateError nodeId"
| "parse_error (Orderbooks m) = OrderbookUpdateError"
| "parse_error (Market_status eventId m) = MarketStatusError eventId"
| "parse_error (Market_discovery m) = MarketDiscoveryError"



text \<open>A \<^verbatim>\<open>Map\<close> holds a key once: the lists that stand for the maps have distinct keys.\<close>

definition store_distinct :: "'a store_scheme \<Rightarrow> bool" where
  "store_distinct s =
     (distinct (map fst (healthData s)) \<and> distinct (map fst (orderbooksByNode s))
      \<and> list_all (\<lambda>p. distinct (map fst (snd p))) (orderbooksByNode s))"




text \<open>
  Payloads whose identifiers are primitive values (strings, as the data model has them): the
  order-book keys they give rise to are compared by value.
\<close>

fun plain_keys :: "bus_message \<Rightarrow> bool" where
  "plain_keys (Orderbooks (Text data)) =
     (\<not> is_ref (own_prop (spread data) ''eventId'') \<and> \<not> is_ref (own_prop (spread data) ''nodeId''))"
| "plain_keys m = True"

text \<open>
  The shapes of the demo data: numeric percentages in every health record, and in every order
  book a \<^verbatim>\<open>marketA\<close> object whose \<^verbatim>\<open>bids\<close> and \<^verbatim>\<open>asks\<close> are arrays that are empty or start
  with an object of numeric \<^verbatim>\<open>price\<close>.
\<close>

fun is_number :: "jsval \<Rightarrow> bool" where
  "is_number (JNum x) = True"
| "is_number v = False"

fun side_shaped :: "jsval \<Rightarrow> bool" where
  "side_shaped (JArr []) = True"
| "side_shaped (JArr (JObj first # rest)) = is_number (own_prop first ''price'')"
| "side_shaped v = False"

fun market_shaped :: "jsval \<Rightarrow> bool" where
  "market_shaped (JObj market) =
     (side_shaped (own_prop market ''bids'') \<and> side_shaped (own_prop market ''asks''))"
| "market_shaped v = False"

definition demo_shaped :: "'a store_scheme \<Rightarrow> bool" where
  "demo_shaped s =
     (list_all (\<lambda>e. is_number (own_prop (snd e) ''cpuUsage'')
                    \<and> is_number (own_prop (snd e) ''memoryUsage'')) (healthData s)
      \<and> list_all (\<lambda>n. list_all (\<lambda>b. market_shaped (own_prop (snd b) ''marketA'')) (snd n))
           (orderbooksByNode s))"

text \<open>A percentage: a number between 0 and 100.\<close>

fun percent :: "jsval \<Rightarrow> bool" where
  "percent (JNum x) = (0 \<le> x \<and> x \<le> 100)"
| "percent v = False"

text \<open>
  One tick on a health record, where \<open>r1\<close> and \<open>r2\<close> are the two random numbers drawn for
  it: the cpu percentage becomes the old one plus \<open>(r1 - 1/2) * 10\<close>, the memory percentage
  the old one plus \<open>(r2 - 1/2) * 5\<close>, each cut off at 0 and at 100; \<^verbatim>\<open>lastUpdate\<close> is the
  time of the tick and every other property stays.
\<close>

definition health_step :: "real \<Rightarrow> real \<Rightarrow> time \<Rightarrow> jsobj \<Rightarrow> jsobj \<Rightarrow> bool" where
  "health_step r1 r2 now h h' =
     (\<exists>cpu mem. own_prop h ''cpuUsage'' = JNum cpu \<and> own_prop h ''memoryUsage'' = JNum mem
        \<and> own_prop h' ''cpuUsage'' = JNum (max 0 (min 100 (cpu + (r1 - 1 / 2) * 10)))
        \<and> own_prop h' ''memoryUsage'' = JNum (max 0 (min 100 (mem + (r2 - 1 / 2) * 5)))
        \<and> own_prop h' ''lastUpdate'' = JDate now
        \<and> (\<forall>k. k \<noteq> ''cpuUsage'' \<and> k \<noteq> ''memoryUsage'' \<and> k \<noteq> ''lastUpdate'' \<longrightarrow>
              own_prop h' k = own_prop h k))"

text \<open>
  One tick on the bid or the ask side of a market, where \<open>i\<close> is the index of the next
  random number before and \<open>j\<close> after: an empty side stays empty, leaves the best price
  alone and draws nothing; otherwise the price of the first level goes up by 1 when the
  \<open>i\<close>-th random number is above 1/2 and down by 1 when it is not, the other levels and the
  other properties of the first level stay, and the best price is the new price of the first
  level.
\<close>

definition side_step ::
    "string \<Rightarrow> string \<Rightarrow> (nat \<Rightarrow> real) \<Rightarrow> nat \<Rightarrow> jsobj \<Rightarrow> jsobj \<Rightarrow> nat \<Rightarrow> bool" where
  "side_step side best rnd i m m' j =
     ((own_prop m side = JArr [] \<and> own_prop m' side = JArr []
         \<and> own_prop m' best = own_prop m best \<and> j = i)
    \<or> (\<exists>first rest p.
          own_prop m side = JArr (JObj first # rest)
        \<and> own_prop first ''price'' = JNum p
        \<and> own_prop m' side
              = JArr (JObj (AList.update ''price''
                              (JNum (p + (if rnd i > 1 / 2 then 1 else - 1))) first) # rest)
        \<and> own_prop m' best = JNum (p + (if rnd i > 1 / 2 then 1 else - 1))
        \<and> j = Suc i))"

text \<open>
  One tick on an order book: the bid side of \<^verbatim>\<open>marketA\<close> steps, then its ask side; the
  other properties of \<^verbatim>\<open>marketA\<close> stay, \<^verbatim>\<open>lastUpdate\<close> is the time of the tick, and every
  other property of the book, \<^verbatim>\<open>marketB\<close> among them, stays.
\<close>

definition book_step :: "(nat \<Rightarrow> real) \<Rightarrow> nat \<Rightarrow> time \<Rightarrow> jsobj \<Rightarrow> jsobj \<Rightarrow> nat \<Rightarrow> bool" where
  "book_step rnd i now b b' k =
     (\<exists>m m' j. own_prop b ''marketA'' = JObj m \<and> own_prop b' ''marketA'' = JObj m'
        \<and> side_step ''bids'' ''bestBid'' rnd i m m' j
        \<and> side_step ''asks'' ''bestAsk'' rnd j m m' k
        \<and> (\<forall>key. key \<noteq> ''bids'' \<and> key \<noteq> ''bestBid'' \<and> key \<noteq> ''asks'' \<and> key \<noteq> ''bestAsk'' \<longrightarrow>
              own_prop m' key = own_prop m key)
        \<and> own_prop b' ''lastUpdate'' = JDate now
        \<and> (\<forall>key. key \<noteq> ''marketA'' \<and> key \<noteq> ''lastUpdate'' \<longrightarrow>
              own_prop b' key = own_prop b key))"

text \<open>
  One tick on the order books of a node and on all nodes, in the order of the maps: the keys
  stay, and each book steps with the random numbers that follow those of the books before it.
\<close>

fun books_step ::
    "(nat \<Rightarrow> real) \<Rightarrow> nat \<Rightarrow> time \<Rightarrow> (jsval \<times> jsobj) list \<Rightarrow> (jsval \<times> jsobj) list \<Rightarrow> nat \<Rightarrow> bool" where
  "books_step rnd i now [] [] k = (k = i)"
| "books_step rnd i now (b # bs) (b' # bs') k =
     (fst b' = fst b \<and> (\<exists>j. book_step rnd i now (snd b) (snd b') j \<and> books_step rnd j now bs bs' k))"
| "books_step rnd i now bs bs' k = False"

fun nodes_step :: "(nat \<Rightarrow> real) \<Rightarrow> nat \<Rightarrow> time \<Rightarrow> orderbooks \<Rightarrow> orderbooks \<Rightarrow> nat \<Rightarrow> bool" where
  "nodes_step rnd i now [] [] k = (k = i)"
| "nodes_step rnd i now (n # ns) (n' # ns') k =
     (fst n' = fst n
      \<and> (\<exists>j. books_step rnd i now (snd n) (snd n') j \<and> nodes_step rnd j now ns ns' k))"
| "nodes_step rnd i now ns ns' k = False"

section \<open>Facts about maps, eviction and broadcast\<close>

lemma same_key_JStr [simp]: "same_key (JStr e) k \<longleftrightarrow> k = JStr e"
  by (auto simp: same_key_def)

lemma Map_has_iff: "Map_has k ps \<longleftrightarrow> (\<exists>p\<in>set ps. same_key k (fst p))"
  by (induction ps) auto

lemma Map_delete_absent: "\<not> Map_has k ps \<Longrightarrow> Map_delete k ps = ps"
  by (induction ps) (auto simp: Map_delete_def)

lemma Map_has_delete [simp]: "\<not> Map_has k (Map_delete k ps)"
  by (auto simp: Map_has_iff Map_delete_def)

lemma remove_market_eq:
  "remove_market e m = map (\<lambda>(n, sub). (n, filter (\<lambda>p. fst p \<noteq> JStr e) sub)) m"
  unfolding remove_market_def
proof (rule map_cong[OF refl], clarsimp, intro conjI impI)
  fix n sub assume "Map_has (JStr e) sub"
  show "Map_delete (JStr e) sub = filter (\<lambda>p. fst p \<noteq> JStr e) sub"
    by (simp add: Map_delete_def)
next
  fix n sub assume "\<not> Map_has (JStr e) sub"
  then have "filter (\<lambda>p. fst p \<noteq> JStr e) sub = sub"
    by (auto simp: Map_has_iff filter_id_conv)
  then show "sub = filter (\<lambda>p. fst p \<noteq> JStr e) sub" by simp
qed

lemma remove_market_absent:
  "\<forall>p\<in>set m. \<not> Map_has (JStr e) (snd p) \<Longrightarrow> remove_market e m = m"
  unfolding remove_market_def by (induction m) auto

lemma remove_market_gone:
  "p \<in> set (remove_market e m) \<Longrightarrow> \<not> Map_has (JStr e) (snd p)"
  by (auto simp: remove_market_def split: if_splits)

lemma broadcast_store [simp]:
  "healthData (broadcast ev s) = healthData s"
  "orderbooksByNode (broadcast ev s) = orderbooksByNode s"
  "totalMarkets (broadcast ev s) = totalMarkets s"
  by (simp_all add: broadcast_def split: prod.splits)

lemma broadcast_emitted [simp]: "emitted (broadcast ev s) = emitted s @ [ev]"
  by (simp add: broadcast_def split: prod.splits)

lemma forEach_send_fst:
  "fst (forEach_send ev cs) =
     map (\<lambda>c. if readyState c = OPEN then snd (send ev c) else c)
         (filter (\<lambda>c. \<not> (readyState c = OPEN \<and> fails c (attempts c))) cs)"
  by (induction cs) (auto simp: send_def split: prod.splits)

lemma forEach_send_snd:
  "snd (forEach_send ev cs) =
     replicate (length (filter (\<lambda>c. readyState c = OPEN \<and> fails c (attempts c)) cs)) SendError"
  by (induction cs) (auto simp: send_def split: prod.splits)

lemma broadcast_clients:
  "clients (broadcast ev s) =
     map (\<lambda>c. if readyState c = OPEN then snd (send ev c) else c)
         (filter (\<lambda>c. \<not> (readyState c = OPEN \<and> fails c (attempts c))) (clients s))"
  by (simp add: broadcast_def forEach_send_fst split_def Let_def)

lemma broadcast_errors:
  "errors (broadcast ev s) = errors s @
     replicate (length (filter (\<lambda>c. readyState c = OPEN \<and> fails c (attempts c)) (clients s))) SendError"
  by (simp add: broadcast_def forEach_send_snd split_def Let_def)

lemma cid_send [simp]: "cid (snd (send ev c)) = cid c"
  by (simp add: send_def)

lemma broadcast_cids:
  "map cid (clients (broadcast ev s)) =
     map cid (filter (\<lambda>c. \<not> (readyState c = OPEN \<and> fails c (attempts c))) (clients s))"
  by (simp add: broadcast_clients o_def cong: map_cong)

lemma own_prop_with_lastUpdate:
  "own_prop (with_lastUpdate v t) k = (if k = ''lastUpdate'' then JDate t else own_prop (spread v) k)"
  by (simp add: own_prop_def with_lastUpdate_def update_conv')

lemma mon_health_step:
  "map_of (healthData (mon_handleHealthUpdate n (Text v) t s)) n = Some (with_lastUpdate v t)"
  by (simp add: mon_handleHealthUpdate_def update_conv')

lemma dash_health_step:
  "map_of (healthData (dash_handleHealthUpdate n (Text v) t s)) n = Some (with_lastUpdate v t)"
  by (simp add: dash_handleHealthUpdate_def update_conv')

section \<open>Health records: the last event wins\<close>

text \<open>
  C1. For every non-empty sequence of health events for a node \<open>n\<close>, processed by the
  monitor or by the dashboard server from any state, the record stored for \<open>n\<close> afterwards
  is the object \<^verbatim>\<open>{...payload, lastUpdate}\<close> built from the last event alone: apart from
  \<^verbatim>\<open>lastUpdate\<close> it has exactly the properties of that payload, nothing of an earlier record
  is left, and \<^verbatim>\<open>lastUpdate\<close> is a time not before the time at which that event was handled.
\<close>

theorem health_last_event_wins:
  assumes "es \<noteq> []"
  shows "map_of (healthData (mon_run (health_events n es) s)) n
           = Some (with_lastUpdate (fst (last es)) (snd (last es)))
       \<and> map_of (healthData (dash_run (health_events n es) d)) n
           = Some (with_lastUpdate (fst (last es)) (snd (last es)))
       \<and> (\<forall>k. k \<noteq> ''lastUpdate'' \<longrightarrow>
             own_prop (with_lastUpdate (fst (last es)) (snd (last es))) k
               = own_prop (spread (fst (last es))) k)
       \<and> (\<exists>t \<ge> snd (last es).
             own_prop (with_lastUpdate (fst (last es)) (snd (last es))) ''lastUpdate'' = JDate t)"
proof -
  obtain es' e where es: "es = es' @ [e]"
    using assms by (cases es rule: rev_cases) auto
  have m: "mon_run (health_events n es) s
             = mon_handleHealthUpdate n (Text (fst e)) (snd e) (mon_run (health_events n es') s)"
    by (simp add: es mon_run_def health_events_def)
  have d: "dash_run (health_events n es) d
             = dash_handleHealthUpdate n (Text (fst e)) (snd e) (dash_run (health_events n es') d)"
    by (simp add: es dash_run_def health_events_def)
  show ?thesis
    unfolding m d by (simp add: es mon_health_step dash_health_step own_prop_with_lastUpdate)
qed

theorem health_last_event_wins_witness:
  "[(JObj [(''cpuUsage'', JNum 20)], 3::nat),
    (JObj [(''cpuUsage'', JNum 50), (''isHealthy'', JBool True)], 7)] \<noteq> []
   \<and> map_of (healthData (mon_run (health_events ''10.0.0.1''
        [(JObj [(''cpuUsage'', JNum 20)], 3),
         (JObj [(''cpuUsage'', JNum 50), (''isHealthy'', JBool True)], 7)]) (mon_init 0)))
        ''10.0.0.1''
       = Some [(''cpuUsage'', JNum 50), (''isHealthy'', JBool True), (''lastUpdate'', JDate 7)]
   \<and> map_of (healthData (dash_run (health_events ''10.0.0.1''
        [(JObj [(''cpuUsage'', JNum 20)], 3),
         (JObj [(''cpuUsage'', JNum 50), (''isHealthy'', JBool True)], 7)]) dash_init))
        ''10.0.0.1''
       = Some [(''cpuUsage'', JNum 50), (''isHealthy'', JBool True), (''lastUpdate'', JDate 7)]"
  using health_last_event_wins
    [of "[(JObj [(''cpuUsage'', JNum 20)], 3),
          (JObj [(''cpuUsage'', JNum 50), (''isHealthy'', JBool True)], 7)]"
        "''10.0.0.1''" "mon_init 0" dash_init]
  by (simp add: with_lastUpdate_def)

section \<open>Status events\<close>

text \<open>
  C2, as the code has it. A status event whose status is CLOSED or CLEARED, for market \<open>M\<close>:
  in the monitor and in the dashboard server every node's sub-map loses its entry under \<open>M\<close>
  and keeps all its other entries, whichever node the entry was stored for. The dashboard
  server calls \<^verbatim>\<open>broadcast\<close> exactly once, with the \<^verbatim>\<open>market_removed\<close> event for \<open>M\<close>, and
  that one event is sent to every attached client that is OPEN (a client whose \<^verbatim>\<open>send\<close>
  throws is dropped from the set, a client that is not OPEN is passed over). The monitor
  writes the status record, evicts and notes the time, and does nothing else: it emits no
  event.
\<close>

theorem terminal_status_evicts_from_every_node:
  assumes "get_prop statusData ''status'' = Inr status" and "is_terminal status"
  shows "orderbooksByNode (mon_handleMarketStatusUpdate M (Text statusData) now s)
           = map (\<lambda>(n, sub). (n, filter (\<lambda>p. fst p \<noteq> JStr M) sub)) (orderbooksByNode s)
       \<and> orderbooksByNode (dash_handleMarketStatusUpdate M (Text statusData) now d)
           = map (\<lambda>(n, sub). (n, filter (\<lambda>p. fst p \<noteq> JStr M) sub)) (orderbooksByNode d)
       \<and> (\<forall>p \<in> set (orderbooksByNode (mon_handleMarketStatusUpdate M (Text statusData) now s)).
             \<not> Map_has (JStr M) (snd p))
       \<and> (\<forall>p \<in> set (orderbooksByNode (dash_handleMarketStatusUpdate M (Text statusData) now d)).
             \<not> Map_has (JStr M) (snd p))
       \<and> emitted (dash_handleMarketStatusUpdate M (Text statusData) now d)
           = emitted d @ [market_removed M status now]
       \<and> clients (dash_handleMarketStatusUpdate M (Text statusData) now d)
           = map (\<lambda>c. if readyState c = OPEN
                       then c\<lparr>attempts := Suc (attempts c),
                              sent := sent c @ [market_removed M status now]\<rparr>
                       else c)
               (filter (\<lambda>c. \<not> (readyState c = OPEN \<and> fails c (attempts c))) (clients d))
       \<and> mon_handleMarketStatusUpdate M (Text statusData) now s
           = s\<lparr>orderbooksByNode :=
                 map (\<lambda>(n, sub). (n, filter (\<lambda>p. fst p \<noteq> JStr M) sub)) (orderbooksByNode s),
               marketStatus := AList.update M (with_lastUpdate statusData now) (marketStatus s),
               lastUpdateTime := now\<rparr>"
proof -
  have m: "mon_handleMarketStatusUpdate M (Text statusData) now s
             = s\<lparr>orderbooksByNode := remove_market M (orderbooksByNode s),
                 marketStatus := AList.update M (with_lastUpdate statusData now) (marketStatus s),
                 lastUpdateTime := now\<rparr>"
    using assms by (simp add: mon_handleMarketStatusUpdate_def Let_def)
  have d: "dash_handleMarketStatusUpdate M (Text statusData) now d
             = broadcast (market_removed M status now)
                 (d\<lparr>orderbooksByNode := remove_market M (orderbooksByNode d)\<rparr>)"
    using assms by (simp add: dash_handleMarketStatusUpdate_def)
  have c: "clients (dash_handleMarketStatusUpdate M (Text statusData) now d)
           = map (\<lambda>c. if readyState c = OPEN
                       then c\<lparr>attempts := Suc (attempts c),
                              sent := sent c @ [market_removed M status now]\<rparr>
                       else c)
               (filter (\<lambda>c. \<not> (readyState c = OPEN \<and> fails c (attempts c))) (clients d))"
    unfolding d broadcast_clients by (rule map_cong) (auto simp: send_def)
  have gone: "\<forall>p \<in> set (remove_market M m). \<not> Map_has (JStr M) (snd p)" for m
    using remove_market_gone by blast
  show ?thesis
    unfolding c unfolding m d using gone by (simp add: remove_market_eq[symmetric])
qed

theorem terminal_status_evicts_from_every_node_witness:
  "get_prop (JObj [(''status'', JStr ''CLOSED'')]) ''status'' = Inr (JStr ''CLOSED'')
   \<and> is_terminal (JStr ''CLOSED'')
   \<and> orderbooksByNode
       (dash_handleMarketStatusUpdate ''E1'' (Text (JObj [(''status'', JStr ''CLOSED'')])) 9
          (dash_init\<lparr>orderbooksByNode :=
             [(JStr ''n1'', [(JStr ''E1'', []), (JStr ''E2'', [])]),
              (JStr ''n2'', [(JStr ''E1'', [])])],
             clients :=
               [\<lparr>cid = 1, readyState = OPEN, fails = (\<lambda>n. False), attempts = 0, sent = []\<rparr>]\<rparr>))
       = [(JStr ''n1'', [(JStr ''E2'', [])]), (JStr ''n2'', [])]
   \<and> emitted
       (dash_handleMarketStatusUpdate ''E1'' (Text (JObj [(''status'', JStr ''CLOSED'')])) 9
          (dash_init\<lparr>orderbooksByNode :=
             [(JStr ''n1'', [(JStr ''E1'', []), (JStr ''E2'', [])]),
              (JStr ''n2'', [(JStr ''E1'', [])])],
             clients :=
               [\<lparr>cid = 1, readyState = OPEN, fails = (\<lambda>n. False), attempts = 0, sent = []\<rparr>]\<rparr>))
       = [market_removed ''E1'' (JStr ''CLOSED'') 9]
   \<and> clients
       (dash_handleMarketStatusUpdate ''E1'' (Text (JObj [(''status'', JStr ''CLOSED'')])) 9
          (dash_init\<lparr>orderbooksByNode :=
             [(JStr ''n1'', [(JStr ''E1'', []), (JStr ''E2'', [])]),
              (JStr ''n2'', [(JStr ''E1'', [])])],
             clients :=
               [\<lparr>cid = 1, readyState = OPEN, fails = (\<lambda>n. False), attempts = 0, sent = []\<rparr>]\<rparr>))
       = [\<lparr>cid = 1, readyState = OPEN, fails = (\<lambda>n. False), attempts = Suc 0,
            sent = [market_removed ''E1'' (JStr ''CLOSED'') 9]\<rparr>]"
  using terminal_status_evicts_from_every_node
    [of "JObj [(''status'', JStr ''CLOSED'')]" "JStr ''CLOSED''" "''E1''" 9 "mon_init 0"
        "dash_init\<lparr>orderbooksByNode :=
             [(JStr ''n1'', [(JStr ''E1'', []), (JStr ''E2'', [])]),
              (JStr ''n2'', [(JStr ''E1'', [])])],
             clients :=
               [\<lparr>cid = 1, readyState = OPEN, fails = (\<lambda>n. False), attempts = 0, sent = []\<rparr>]\<rparr>"]
  by (simp add: is_terminal_def own_prop_def dash_init_def)

text \<open>
  C2 as stated fails on the monitor, which has no observers and no \<^verbatim>\<open>broadcast\<close>: node n1
  holds market E1 and a CLOSED status event for E1 arrives. The entry is evicted, the status
  record and the time are written, and that is the whole state afterwards: no
  \<^verbatim>\<open>market_removed\<close> event has been emitted.
\<close>

theorem monitor_emits_no_market_removed:
  "mon_handleMarketStatusUpdate ''E1'' (Text (JObj [(''status'', JStr ''CLOSED'')])) 9
     \<lparr>healthData = [], orderbooksByNode = [(JStr ''n1'', [(JStr ''E1'', [])])],
      totalMarkets = JUndefined, errors = [], marketStatus = [], lastUpdateTime = 0\<rparr>
   = \<lparr>healthData = [], orderbooksByNode = [(JStr ''n1'', [])],
      totalMarkets = JUndefined, errors = [],
      marketStatus = [(''E1'', [(''status'', JStr ''CLOSED''), (''lastUpdate'', JDate 9)])],
      lastUpdateTime = 9\<rparr>"
  by (simp add: mon_handleMarketStatusUpdate_def is_terminal_def own_prop_def Let_def
        with_lastUpdate_def remove_market_def Map_delete_def same_key_def)

text \<open>
  C7. A status message that is not terminal (its status is some other value, or is missing,
  or the payload does not parse) leaves every node's order-book sub-map as it was, in the
  monitor and in the dashboard server; the dashboard server broadcasts nothing.
\<close>

theorem nonterminal_status_keeps_orderbooks:
  assumes "\<not> terminal_message m"
  shows "orderbooksByNode (mon_handleMarketStatusUpdate M m now s) = orderbooksByNode s
       \<and> orderbooksByNode (dash_handleMarketStatusUpdate M m now d) = orderbooksByNode d
       \<and> emitted (dash_handleMarketStatusUpdate M m now d) = emitted d"
  using assms
  by (auto simp: terminal_message_def mon_handleMarketStatusUpdate_def
        dash_handleMarketStatusUpdate_def console_error_def Let_def
      split: sum.splits)

theorem nonterminal_status_keeps_orderbooks_witness:
  "\<not> terminal_message (Text (JObj [(''status'', JStr ''ACTIVE'')]))
   \<and> orderbooksByNode
       (mon_handleMarketStatusUpdate ''E1'' (Text (JObj [(''status'', JStr ''ACTIVE'')])) 9
          ((mon_init 0)\<lparr>orderbooksByNode := [(JStr ''n1'', [(JStr ''E1'', [])])]\<rparr>))
       = [(JStr ''n1'', [(JStr ''E1'', [])])]"
  using nonterminal_status_keeps_orderbooks
    [of "Text (JObj [(''status'', JStr ''ACTIVE'')])" "''E1''" 9
        "(mon_init 0)\<lparr>orderbooksByNode := [(JStr ''n1'', [(JStr ''E1'', [])])]\<rparr>" dash_init]
  by (simp add: terminal_message_def is_terminal_def own_prop_def mon_init_def)

text \<open>
  C9. A terminal status event for a market that no node holds (no sub-map has an entry under
  \<open>M\<close>, as for a market never seen): the dashboard server still calls \<^verbatim>\<open>broadcast\<close> once
  with \<^verbatim>\<open>market_removed\<close>, every attached client that is OPEN and whose \<^verbatim>\<open>send\<close> does not
  throw gets that event, and the health records, the order books and the total are unchanged.
\<close>

theorem terminal_status_for_unheld_market:
  assumes "get_prop statusData ''status'' = Inr status" and "is_terminal status"
    and "\<forall>p \<in> set (orderbooksByNode d). \<not> Map_has (JStr M) (snd p)"
  shows "emitted (dash_handleMarketStatusUpdate M (Text statusData) now d)
           = emitted d @ [market_removed M status now]
       \<and> healthData (dash_handleMarketStatusUpdate M (Text statusData) now d) = healthData d
       \<and> orderbooksByNode (dash_handleMarketStatusUpdate M (Text statusData) now d)
           = orderbooksByNode d
       \<and> totalMarkets (dash_handleMarketStatusUpdate M (Text statusData) now d) = totalMarkets d
       \<and> (\<forall>c \<in> set (clients d). readyState c = OPEN \<and> \<not> fails c (attempts c) \<longrightarrow>
             c\<lparr>attempts := Suc (attempts c), sent := sent c @ [market_removed M status now]\<rparr>
               \<in> set (clients (dash_handleMarketStatusUpdate M (Text statusData) now d)))"
proof -
  have "dash_handleMarketStatusUpdate M (Text statusData) now d
          = broadcast (market_removed M status now) d"
    using assms by (simp add: dash_handleMarketStatusUpdate_def remove_market_absent)
  then show ?thesis
    by (auto simp: broadcast_clients send_def image_iff intro!: bexI)
qed

theorem terminal_status_for_unheld_market_witness:
  "get_prop (JObj [(''status'', JStr ''CLEARED'')]) ''status'' = Inr (JStr ''CLEARED'')
   \<and> is_terminal (JStr ''CLEARED'')
   \<and> \<not> Map_has (JStr ''E1'') [(JStr ''E2'', [])]
   \<and> emitted (dash_handleMarketStatusUpdate ''E1''
        (Text (JObj [(''status'', JStr ''CLEARED'')])) 9
        (dash_init\<lparr>orderbooksByNode := [(JStr ''n1'', [(JStr ''E2'', [])])],
           clients := [\<lparr>cid = 1, readyState = OPEN, fails = (\<lambda>n. False), attempts = 0,
                        sent = []\<rparr>]\<rparr>))
       = [market_removed ''E1'' (JStr ''CLEARED'') 9]
   \<and> orderbooksByNode (dash_handleMarketStatusUpdate ''E1''
        (Text (JObj [(''status'', JStr ''CLEARED'')])) 9
        (dash_init\<lparr>orderbooksByNode := [(JStr ''n1'', [(JStr ''E2'', [])])],
           clients := [\<lparr>cid = 1, readyState = OPEN, fails = (\<lambda>n. False), attempts = 0,
                        sent = []\<rparr>]\<rparr>))
       = [(JStr ''n1'', [(JStr ''E2'', [])])]
   \<and> \<lparr>cid = 1, readyState = OPEN, fails = (\<lambda>n. False), attempts = Suc 0,
        sent = [market_removed ''E1'' (JStr ''CLEARED'') 9]\<rparr>
       \<in> set (clients (dash_handleMarketStatusUpdate ''E1''
            (Text (JObj [(''status'', JStr ''CLEARED'')])) 9
            (dash_init\<lparr>orderbooksByNode := [(JStr ''n1'', [(JStr ''E2'', [])])],
               clients := [\<lparr>cid = 1, readyState = OPEN, fails = (\<lambda>n. False), attempts = 0,
                            sent = []\<rparr>]\<rparr>)))"
  using terminal_status_for_unheld_market
    [of "JObj [(''status'', JStr ''CLEARED'')]" "JStr ''CLEARED''"
        "dash_init\<lparr>orderbooksByNode := [(JStr ''n1'', [(JStr ''E2'', [])])],
           clients := [\<lparr>cid = 1, readyState = OPEN, fails = (\<lambda>n. False), attempts = 0,
                        sent = []\<rparr>]\<rparr>" "''E1''" 9]
  by (simp add: is_terminal_def own_prop_def dash_init_def same_key_def)

section \<open>Malformed payloads\<close>

lemma broadcast_errors_irrelevant:
  "broadcast ev (s\<lparr>errors := l\<rparr>)
     = (broadcast ev s)\<lparr>errors := l @ drop (length (errors s)) (errors (broadcast ev s))\<rparr>"
  by (simp add: broadcast_def split_def Let_def)

lemma broadcast_errors_prefix: "length (errors s) \<le> length (errors (broadcast ev s))"
  by (simp add: broadcast_errors)

lemma dash_errors_irrelevant:
  "dash_on_message bm t (s\<lparr>errors := l\<rparr>)
     = (dash_on_message bm t s)\<lparr>errors := l @ drop (length (errors s)) (errors (dash_on_message bm t s))\<rparr>"
  by (cases bm)
     (simp_all add: dash_handleHealthUpdate_def dash_handleOrderbookUpdate_def
        dash_handleMarketStatusUpdate_def dash_handleMarketDiscovery_def
        console_error_def broadcast_def split_def Let_def
      split: sum.splits)

lemma mon_errors_irrelevant:
  "mon_on_message bm t (s\<lparr>errors := l\<rparr>)
     = (mon_on_message bm t s)\<lparr>errors := l @ drop (length (errors s)) (errors (mon_on_message bm t s))\<rparr>"
  by (cases bm)
     (simp_all add: mon_handleHealthUpdate_def mon_handleOrderbookUpdate_def
        mon_handleMarketStatusUpdate_def mon_handleMarketDiscovery_def
        console_error_def Let_def
      split: sum.splits)

lemma mon_garbage:
  "payload bm = Garbage \<Longrightarrow> mon_on_message bm t s = s\<lparr>errors := errors s @ [parse_error bm]\<rparr>"
  by (cases bm)
     (simp_all add: mon_handleHealthUpdate_def mon_handleOrderbookUpdate_def
        mon_handleMarketStatusUpdate_def mon_handleMarketDiscovery_def console_error_def)

lemma dash_garbage:
  "payload bm = Garbage \<Longrightarrow> dash_on_message bm t s = s\<lparr>errors := errors s @ [parse_error bm]\<rparr>"
  by (cases bm)
     (simp_all add: dash_handleHealthUpdate_def dash_handleOrderbookUpdate_def
        dash_handleMarketStatusUpdate_def dash_handleMarketDiscovery_def console_error_def)

text \<open>
  C4. On each of the four topics, in the monitor and in the dashboard server, a message whose
  payload does not parse changes nothing but the error log, to which it adds exactly one
  entry; the handler returns, and whatever message comes next is processed as it would have
  been without the malformed one: same resulting state, same new log entries.
\<close>

theorem malformed_payload_is_dropped:
  assumes "payload bm = Garbage"
  shows "mon_on_message bm now s = s\<lparr>errors := errors s @ [parse_error bm]\<rparr>
       \<and> dash_on_message bm now d = d\<lparr>errors := errors d @ [parse_error bm]\<rparr>
       \<and> (\<forall>bm' now'.
            (mon_on_message bm' now' (mon_on_message bm now s))\<lparr>errors := []\<rparr>
              = (mon_on_message bm' now' s)\<lparr>errors := []\<rparr>
          \<and> errors (mon_on_message bm' now' (mon_on_message bm now s))
              = errors s @ [parse_error bm]
                  @ drop (length (errors s)) (errors (mon_on_message bm' now' s))
          \<and> (dash_on_message bm' now' (dash_on_message bm now d))\<lparr>errors := []\<rparr>
              = (dash_on_message bm' now' d)\<lparr>errors := []\<rparr>
          \<and> errors (dash_on_message bm' now' (dash_on_message bm now d))
              = errors d @ [parse_error bm]
                  @ drop (length (errors d)) (errors (dash_on_message bm' now' d)))"
  unfolding mon_garbage[OF assms] dash_garbage[OF assms]
  by (simp add: mon_errors_irrelevant dash_errors_irrelevant)

theorem malformed_payload_is_dropped_witness:
  "payload (Metrics ''n1'' Garbage) = Garbage
   \<and> mon_on_message (Metrics ''n1'' Garbage) 1 (mon_init 0)
       = (mon_init 0)\<lparr>errors := [HealthUpdateError ''n1'']\<rparr>
   \<and> dash_on_message (Metrics ''n1'' Garbage) 1 dash_init
       = dash_init\<lparr>errors := [HealthUpdateError ''n1'']\<rparr>
   \<and> healthData (dash_on_message (Metrics ''n1'' (Text (JObj [(''cpuUsage'', JNum 50)]))) 2
         (dash_on_message (Metrics ''n1'' Garbage) 1 dash_init))
       = [(''n1'', [(''cpuUsage'', JNum 50), (''lastUpdate'', JDate 2)])]"
  using malformed_payload_is_dropped [of "Metrics ''n1'' Garbage" 1 "mon_init 0" dash_init]
  by (simp add: mon_init_def dash_init_def dash_handleHealthUpdate_def with_lastUpdate_def
        console_error_def)

section \<open>Broadcast and observer failures\<close>

lemma broadcast_keeps_not_open:
  "c \<in> set (clients s) \<Longrightarrow> readyState c \<noteq> OPEN \<Longrightarrow> c \<in> set (clients (broadcast ev s))"
  by (force simp: broadcast_clients image_iff)

lemma broadcast_delivers:
  "c \<in> set (clients s) \<Longrightarrow> readyState c = OPEN \<Longrightarrow> \<not> fails c (attempts c) \<Longrightarrow>
     c\<lparr>attempts := Suc (attempts c), sent := sent c @ [ev]\<rparr> \<in> set (clients (broadcast ev s))"
  by (force simp: broadcast_clients image_iff send_def)

lemma broadcast_detaches:
  assumes "distinct (map cid (clients s))" and "c \<in> set (clients s)"
    and "readyState c = OPEN" and "fails c (attempts c)"
  shows "cid c \<notin> cid ` set (clients (broadcast ev s))"
proof
  assume "cid c \<in> cid ` set (clients (broadcast ev s))"
  then have "cid c \<in> set (map cid (clients (broadcast ev s)))" by simp
  then obtain c' where c': "c' \<in> set (clients s)" "\<not> (readyState c' = OPEN \<and> fails c' (attempts c'))"
      "cid c' = cid c"
    unfolding broadcast_cids by auto
  from assms(1) c'(1) assms(2) c'(3) have "c' = c"
    by (meson distinct_map inj_onD)
  with c'(2) assms(3,4) show False by simp
qed

lemma broadcast_removed_only_if_throws:
  assumes "c \<in> set (clients s)" and "cid c \<notin> cid ` set (clients (broadcast ev s))"
  shows "readyState c = OPEN \<and> fails c (attempts c)"
proof (rule ccontr)
  assume "\<not> (readyState c = OPEN \<and> fails c (attempts c))"
  with assms(1) have "cid c \<in> set (map cid (clients (broadcast ev s)))"
    unfolding broadcast_cids by auto
  with assms(2) show False by simp
qed

text \<open>
  C5, as the code has it. \<^verbatim>\<open>broadcast\<close> returns for every set of attached clients and
  every event (each \<^verbatim>\<open>send\<close> sits in its own \<^verbatim>\<open>try\<close>): a client that is OPEN and whose
  \<^verbatim>\<open>send\<close> throws is deleted from the set and logged; every client that is OPEN and whose
  \<^verbatim>\<open>send\<close> does not throw gets the event, whatever happened to the others; a client that
  is not OPEN is passed over, so it neither gets the event nor leaves the set. The store is
  not touched.
\<close>

theorem broadcast_isolates_failures:
  assumes "distinct (map cid (clients s))"
  shows "(\<forall>c \<in> set (clients s). readyState c = OPEN \<and> fails c (attempts c) \<longrightarrow>
            cid c \<notin> cid ` set (clients (broadcast ev s)))
       \<and> (\<forall>c \<in> set (clients s). readyState c = OPEN \<and> \<not> fails c (attempts c) \<longrightarrow>
            c\<lparr>attempts := Suc (attempts c), sent := sent c @ [ev]\<rparr>
              \<in> set (clients (broadcast ev s)))
       \<and> (\<forall>c \<in> set (clients s). readyState c \<noteq> OPEN \<longrightarrow> c \<in> set (clients (broadcast ev s)))
       \<and> errors (broadcast ev s) = errors s @
            replicate (length (filter (\<lambda>c. readyState c = OPEN \<and> fails c (attempts c))
                                 (clients s))) SendError
       \<and> emitted (broadcast ev s) = emitted s @ [ev]
       \<and> healthData (broadcast ev s) = healthData s
       \<and> orderbooksByNode (broadcast ev s) = orderbooksByNode s
       \<and> totalMarkets (broadcast ev s) = totalMarkets s"
  using broadcast_detaches[OF assms] broadcast_delivers broadcast_keeps_not_open
  by (simp add: broadcast_errors)

theorem broadcast_isolates_failures_witness:
  "distinct (map cid
      [\<lparr>cid = 1, readyState = OPEN, fails = (\<lambda>n. True), attempts = 0, sent = []\<rparr>,
       \<lparr>cid = 2, readyState = OPEN, fails = (\<lambda>n. False), attempts = 0, sent = []\<rparr>])
   \<and> clients (broadcast (market_discovery (JNum 3) 5)
        (dash_init\<lparr>clients :=
           [\<lparr>cid = 1, readyState = OPEN, fails = (\<lambda>n. True), attempts = 0, sent = []\<rparr>,
            \<lparr>cid = 2, readyState = OPEN, fails = (\<lambda>n. False), attempts = 0, sent = []\<rparr>]\<rparr>))
       = [\<lparr>cid = 2, readyState = OPEN, fails = (\<lambda>n. False), attempts = Suc 0,
            sent = [market_discovery (JNum 3) 5]\<rparr>]
   \<and> errors (broadcast (market_discovery (JNum 3) 5)
        (dash_init\<lparr>clients :=
           [\<lparr>cid = 1, readyState = OPEN, fails = (\<lambda>n. True), attempts = 0, sent = []\<rparr>,
            \<lparr>cid = 2, readyState = OPEN, fails = (\<lambda>n. False), attempts = 0, sent = []\<rparr>]\<rparr>))
       = [SendError]"
  using broadcast_isolates_failures
    [of "dash_init\<lparr>clients :=
           [\<lparr>cid = 1, readyState = OPEN, fails = (\<lambda>n. True), attempts = 0, sent = []\<rparr>,
            \<lparr>cid = 2, readyState = OPEN, fails = (\<lambda>n. False), attempts = 0, sent = []\<rparr>]\<rparr>"
        "market_discovery (JNum 3) 5"]
  by (simp add: broadcast_def dash_init_def send_def)

text \<open>
  C5 as stated fails where an attached client is not OPEN: client 1 is OPEN and its \<^verbatim>\<open>send\<close>
  throws, client 2 is attached and CLOSED. After the broadcast client 1 is gone, and client 2
  is still attached and has not got the event.
\<close>

theorem broadcast_skips_closed_observer:
  "clients (broadcast (market_discovery (JNum 3) 5)
      (dash_init\<lparr>clients :=
         [\<lparr>cid = 1, readyState = OPEN, fails = (\<lambda>n. True), attempts = 0, sent = []\<rparr>,
          \<lparr>cid = 2, readyState = CLOSED, fails = (\<lambda>n. False), attempts = 0, sent = []\<rparr>]\<rparr>))
   = [\<lparr>cid = 2, readyState = CLOSED, fails = (\<lambda>n. False), attempts = 0, sent = []\<rparr>]"
  by (simp add: broadcast_def dash_init_def send_def)

lemma dash_on_message_keeps_not_open:
  assumes "c \<in> set (clients s)" and "readyState c \<noteq> OPEN"
  shows "c \<in> set (clients (dash_on_message bm t s))"
proof -
  have b: "\<And>ev s'. clients s' = clients s \<Longrightarrow> c \<in> set (clients (broadcast ev s'))"
    using assms broadcast_keeps_not_open by metis
  show ?thesis
    using assms(1)
    by (cases bm)
       (auto simp: dash_handleHealthUpdate_def dash_handleOrderbookUpdate_def
          dash_handleMarketStatusUpdate_def dash_handleMarketDiscovery_def
          console_error_def b split: sum.splits)
qed

lemma dash_run_keeps_not_open:
  "c \<in> set (clients s) \<Longrightarrow> readyState c \<noteq> OPEN \<Longrightarrow> c \<in> set (clients (dash_run ms s))"
  unfolding dash_run_def
  by (induction ms arbitrary: s) (simp_all add: dash_on_message_keeps_not_open)

text \<open>
  C10. \<^verbatim>\<open>broadcast\<close> passes over an attached client that is not OPEN and leaves it in the
  set, unchanged; a client that \<^verbatim>\<open>broadcast\<close> does delete was OPEN and its \<^verbatim>\<open>send\<close> threw.
  A client that is not OPEN stays attached through any sequence of bus messages; its
  \<^verbatim>\<open>close\<close> and \<^verbatim>\<open>error\<close> callbacks are what delete it.
\<close>

theorem not_open_client_stays_attached:
  "(c \<in> set (clients s) \<and> readyState c \<noteq> OPEN \<longrightarrow> c \<in> set (clients (broadcast ev s)))
 \<and> (c \<in> set (clients s) \<and> cid c \<notin> cid ` set (clients (broadcast ev s)) \<longrightarrow>
       readyState c = OPEN \<and> fails c (attempts c))
 \<and> (c \<in> set (clients s) \<and> readyState c \<noteq> OPEN \<longrightarrow> c \<in> set (clients (dash_run ms s)))
 \<and> cid c \<notin> cid ` set (clients (ws_on_close (cid c) s))
 \<and> cid c \<notin> cid ` set (clients (ws_on_error (cid c) s))"
  using broadcast_keeps_not_open broadcast_removed_only_if_throws dash_run_keeps_not_open
  by (auto simp: ws_on_close_def ws_on_error_def Set_delete_def console_error_def)

theorem not_open_client_stays_attached_witness:
  "\<lparr>cid = 2, readyState = CLOSING, fails = (\<lambda>n. True), attempts = 0, sent = []\<rparr>
     \<in> set (clients (dash_init\<lparr>clients :=
           [\<lparr>cid = 2, readyState = CLOSING, fails = (\<lambda>n. True), attempts = 0, sent = []\<rparr>]\<rparr>))
   \<and> readyState \<lparr>cid = 2, readyState = CLOSING, fails = (\<lambda>n. True), attempts = 0, sent = []\<rparr>
       \<noteq> OPEN
   \<and> \<lparr>cid = 2, readyState = CLOSING, fails = (\<lambda>n. True), attempts = 0, sent = []\<rparr>
     \<in> set (clients (broadcast (market_discovery (JNum 3) 5)
          (dash_init\<lparr>clients :=
             [\<lparr>cid = 2, readyState = CLOSING, fails = (\<lambda>n. True), attempts = 0,
                sent = []\<rparr>]\<rparr>)))
   \<and> clients (ws_on_close 2
          (dash_init\<lparr>clients :=
             [\<lparr>cid = 2, readyState = CLOSING, fails = (\<lambda>n. True), attempts = 0,
                sent = []\<rparr>]\<rparr>)) = []"
  using not_open_client_stays_attached
    [of "\<lparr>cid = 2, readyState = CLOSING, fails = (\<lambda>n. True), attempts = 0, sent = []\<rparr>"
        "dash_init\<lparr>clients :=
           [\<lparr>cid = 2, readyState = CLOSING, fails = (\<lambda>n. True), attempts = 0, sent = []\<rparr>]\<rparr>"
        "market_discovery (JNum 3) 5" "[]"]
  by (simp add: dash_init_def ws_on_close_def Set_delete_def)

section \<open>The status record\<close>

lemma mon_status_recorded:
  "map_of (marketStatus (mon_handleMarketStatusUpdate M (Text v) now s)) M
     = Some (with_lastUpdate v now)"
  by (simp add: mon_handleMarketStatusUpdate_def Let_def console_error_def update_conv'
      split: sum.splits)

lemma mon_on_message_keeps_status:
  "M \<in> fst ` set (marketStatus s) \<Longrightarrow> M \<in> fst ` set (marketStatus (mon_on_message bm t s))"
  by (cases bm)
     (auto simp: mon_handleHealthUpdate_def mon_handleOrderbookUpdate_def
        mon_handleMarketStatusUpdate_def mon_handleMarketDiscovery_def
        console_error_def Let_def dom_update split: sum.splits)

lemma mon_run_keeps_status:
  "M \<in> fst ` set (marketStatus s) \<Longrightarrow> M \<in> fst ` set (marketStatus (mon_run ms s))"
  unfolding mon_run_def
  by (induction ms arbitrary: s) (simp_all add: mon_on_message_keeps_status)

text \<open>
  C6, as the code has it. In the monitor every status event that parses, terminal or not,
  writes the record \<^verbatim>\<open>{...payload, lastUpdate}\<close> under its market, replacing an earlier
  one, and the market keeps a record through every later message (nothing deletes from
  \<^verbatim>\<open>marketStatus\<close>, not even the eviction of the order books). The dashboard server has no
  such map: a status event leaves its health records and its total alone and at most evicts
  order books.
\<close>

theorem monitor_records_and_keeps_status:
  "map_of (marketStatus (mon_handleMarketStatusUpdate M (Text v) now s)) M
     = Some (with_lastUpdate v now)
 \<and> M \<in> fst ` set (marketStatus (mon_run ms (mon_handleMarketStatusUpdate M (Text v) now s)))
 \<and> healthData (dash_handleMarketStatusUpdate M (Text v) now d) = healthData d
 \<and> totalMarkets (dash_handleMarketStatusUpdate M (Text v) now d) = totalMarkets d
 \<and> (orderbooksByNode (dash_handleMarketStatusUpdate M (Text v) now d) = orderbooksByNode d
    \<or> orderbooksByNode (dash_handleMarketStatusUpdate M (Text v) now d)
         = remove_market M (orderbooksByNode d))"
proof -
  have "M \<in> fst ` set (marketStatus (mon_handleMarketStatusUpdate M (Text v) now s))"
    using mon_status_recorded[of M v now s] by (metis domI dom_map_of_conv_image_fst)
  then have "M \<in> fst ` set (marketStatus (mon_run ms (mon_handleMarketStatusUpdate M (Text v) now s)))"
    by (rule mon_run_keeps_status)
  moreover have "healthData (dash_handleMarketStatusUpdate M (Text v) now d) = healthData d"
    "totalMarkets (dash_handleMarketStatusUpdate M (Text v) now d) = totalMarkets d"
    "orderbooksByNode (dash_handleMarketStatusUpdate M (Text v) now d) = orderbooksByNode d
      \<or> orderbooksByNode (dash_handleMarketStatusUpdate M (Text v) now d)
         = remove_market M (orderbooksByNode d)"
    by (auto simp: dash_handleMarketStatusUpdate_def console_error_def split: sum.splits)
  ultimately show ?thesis
    using mon_status_recorded by simp
qed

text \<open>
  C6 as stated fails on the dashboard server: after a status event for a market the whole
  state is what it was, so no record of the status exists anywhere in its store.
\<close>

theorem dashboard_stores_no_status:
  "dash_handleMarketStatusUpdate ''E1'' (Text (JObj [(''status'', JStr ''OPEN'')])) 9 dash_init
     = dash_init"
  by (simp add: dash_handleMarketStatusUpdate_def is_terminal_def own_prop_def)

section \<open>Cold-start replay\<close>



lemma cached_events_frame [simp]:
  "cached_health now (s\<lparr>clients := cs\<rparr>) = cached_health now s"
  "cached_orderbooks now (s\<lparr>clients := cs\<rparr>) = cached_orderbooks now s"
  by (simp_all add: cached_health_def cached_orderbooks_def)












text \<open>
  The hypothesis of distinct keys holds in every state the dashboard server reaches from its
  initial one by bus messages whose identifiers are primitive values.
\<close>

lemma Map_has_plain: "\<not> is_ref k \<Longrightarrow> Map_has k m \<longleftrightarrow> k \<in> fst ` set m"
  by (induction m) (auto simp: same_key_def)

lemma Map_set_keys:
  "map fst (Map_set k v m) = (if Map_has k m then map fst m else map fst m @ [k])"
  by (induction m) (auto simp: same_key_def)

lemma distinct_Map_set:
  "distinct (map fst m) \<Longrightarrow> \<not> is_ref k \<Longrightarrow> distinct (map fst (Map_set k v m))"
  by (simp add: Map_set_keys Map_has_plain)

lemma list_all_Map_set:
  "list_all P m \<Longrightarrow> P (k, v) \<Longrightarrow> list_all P (Map_set k v m)"
  by (induction m) auto

lemma Map_get_in: "Map_get k m = Some v \<Longrightarrow> \<exists>k'. (k', v) \<in> set m"
  by (induction m) (auto split: if_splits intro: prod.collapse[THEN subst])

lemma store_orderbook_distinct:
  assumes "distinct (map fst m)" and "list_all (\<lambda>p. distinct (map fst (snd p))) m"
    and "\<not> is_ref n" and "\<not> is_ref e"
  shows "distinct (map fst (store_orderbook n e r m))
       \<and> list_all (\<lambda>p. distinct (map fst (snd p))) (store_orderbook n e r m)"
proof -
  let ?sub = "case Map_get n m of None \<Rightarrow> [] | Some sub \<Rightarrow> sub"
  have "distinct (map fst ?sub)"
  proof (cases "Map_get n m")
    case None
    then show ?thesis by simp
  next
    case (Some sub)
    then obtain k' where "(k', sub) \<in> set m" using Map_get_in by fastforce
    with assms(2) show ?thesis using Some by (auto simp: list_all_iff)
  qed
  then have "distinct (map fst (Map_set e r ?sub))"
    using assms(4) by (rule distinct_Map_set)
  then show ?thesis
    using assms(1,2,3) by (simp add: store_orderbook_def distinct_Map_set list_all_Map_set)
qed

lemma remove_market_distinct:
  assumes "distinct (map fst m)" and "list_all (\<lambda>p. distinct (map fst (snd p))) m"
  shows "distinct (map fst (remove_market e m))
       \<and> list_all (\<lambda>p. distinct (map fst (snd p))) (remove_market e m)"
  using assms
  by (auto simp: remove_market_eq list_all_iff o_def split_def distinct_map_filter)

lemma store_distinct_frame [simp]:
  "store_distinct (broadcast ev s) = store_distinct s"
  "store_distinct (console_error x s) = store_distinct s"
  by (simp_all add: store_distinct_def console_error_def)

lemma get_prop_type_object:
  "get_prop data ''type'' = Inr (JStr t) \<Longrightarrow> get_prop data k = Inr (own_prop (spread data) k)"
  by (cases data) auto

lemma dash_on_message_distinct:
  assumes "store_distinct s" and "plain_keys bm"
  shows "store_distinct (dash_on_message bm t s)"
proof (cases bm)
  case (Metrics n m)
  then show ?thesis
    using assms(1)
    by (cases m)
       (simp_all add: dash_handleHealthUpdate_def store_distinct_def distinct_update
          console_error_def)
next
  case (Orderbooks m)
  show ?thesis
  proof (cases m)
    case Garbage
    then show ?thesis using assms(1) Orderbooks by (simp add: dash_handleOrderbookUpdate_def)
  next
    case (Text data)
    show ?thesis
    proof (cases "get_prop data ''type'' = Inr (JStr ''orderbook_update'')")
      case False
      then show ?thesis
        using assms(1) Orderbooks Text
        by (auto simp: dash_handleOrderbookUpdate_def split: sum.splits)
    next
      case True
      note ty = get_prop_type_object[OF True]
      from assms(2) Orderbooks Text
      have k: "\<not> is_ref (own_prop (spread data) ''eventId'')"
              "\<not> is_ref (own_prop (spread data) ''nodeId'')" by simp_all
      have "store_distinct
              (s\<lparr>orderbooksByNode :=
                   store_orderbook (own_prop (spread data) ''nodeId'')
                     (own_prop (spread data) ''eventId'') (with_lastUpdate data t)
                     (orderbooksByNode s)\<rparr>)"
        using assms(1) store_orderbook_distinct[OF _ _ k(2) k(1)]
        by (simp add: store_distinct_def)
      then show ?thesis
        using Orderbooks Text True by (simp add: dash_handleOrderbookUpdate_def ty)
    qed
  qed
next
  case (Market_status e m)
  have "store_distinct (s\<lparr>orderbooksByNode := remove_market e (orderbooksByNode s)\<rparr>)"
    using assms(1) remove_market_distinct by (simp add: store_distinct_def)
  then show ?thesis
    using assms(1) Market_status
    by (auto simp: dash_handleMarketStatusUpdate_def split: sum.splits)
next
  case (Market_discovery m)
  have "\<And>n. store_distinct (s\<lparr>totalMarkets := n\<rparr>)"
    using assms(1) by (simp add: store_distinct_def)
  then show ?thesis
    using assms(1) Market_discovery
    by (auto simp: dash_handleMarketDiscovery_def split: sum.splits)
qed

lemma dash_run_distinct:
  "store_distinct s \<Longrightarrow> list_all (\<lambda>m. plain_keys (fst m)) ms \<Longrightarrow> store_distinct (dash_run ms s)"
  unfolding dash_run_def
  by (induction ms arbitrary: s) (simp_all add: dash_on_message_distinct)

lemma dash_init_distinct: "store_distinct dash_init"
  by (simp add: store_distinct_def dash_init_def)


section \<open>Demo mode: one perturbation tick\<close>

lemma own_prop_update [simp]:
  "own_prop (AList.update k v al) k' = (if k' = k then v else own_prop al k')"
  by (simp add: own_prop_def update_conv')

lemma is_number_iff: "is_number v \<longleftrightarrow> (\<exists>x. v = JNum x)"
  by (cases v) auto

lemma step_bounds:
  assumes "0 \<le> r" and "r < 1"
  shows "\<bar>(r - 1 / 2) * 10\<bar> \<le> (5::real)" and "\<bar>(r - 1 / 2) * 5\<bar> \<le> (5 / 2::real)"
proof -
  show "\<bar>(r - 1 / 2) * 10\<bar> \<le> (5::real)"
    using assms by (intro abs_leI) (simp_all add: algebra_simps)
  show "\<bar>(r - 1 / 2) * 5\<bar> \<le> (5 / 2::real)"
    using assms by (intro abs_leI) (simp_all add: algebra_simps)
qed

lemma perturb_health_ok:
  assumes "is_number (own_prop h ''cpuUsage'')" and "is_number (own_prop h ''memoryUsage'')"
  shows "\<exists>h'. perturb_health r1 r2 now h = Some h' \<and> health_step r1 r2 now h h'
           \<and> percent (own_prop h' ''cpuUsage'') \<and> percent (own_prop h' ''memoryUsage'')"
proof -
  from assms obtain cpu mem where
    c: "own_prop h ''cpuUsage'' = JNum cpu" and m: "own_prop h ''memoryUsage'' = JNum mem"
    by (auto simp: is_number_iff)
  let ?h' = "AList.update ''lastUpdate'' (JDate now)
               (AList.update ''memoryUsage'' (JNum (clamp_percent (mem + (r2 - 0.5) * 5)))
                 (AList.update ''cpuUsage'' (JNum (clamp_percent (cpu + (r1 - 0.5) * 10))) h))"
  have p: "perturb_health r1 r2 now h = Some ?h'"
    by (simp add: perturb_health_def c m Let_def)
  have "health_step r1 r2 now h ?h'"
    unfolding health_step_def
    by (rule exI[of _ cpu], rule exI[of _ mem]) (simp add: c m clamp_percent_def)
  moreover have "percent (own_prop ?h' ''cpuUsage'')" "percent (own_prop ?h' ''memoryUsage'')"
    by (simp_all add: clamp_percent_def)
  ultimately show ?thesis using p by blast
qed

lemma percent_is_number: "percent v \<Longrightarrow> is_number v"
  by (cases v) auto

lemma health_loop_ok:
  assumes "list_all (\<lambda>e. is_number (own_prop (snd e) ''cpuUsage'')
                    \<and> is_number (own_prop (snd e) ''memoryUsage'')) es"
  shows "\<exists>es' s'. health_loop rnd i now es s = Some (es', s')
           \<and> length es' = length es
           \<and> (\<forall>k < length es. fst (es' ! k) = fst (es ! k)
                 \<and> health_step (rnd (i + 2 * k)) (rnd (i + 2 * k + 1)) now
                      (snd (es ! k)) (snd (es' ! k)))
           \<and> list_all (\<lambda>e. percent (own_prop (snd e) ''cpuUsage'')
                    \<and> percent (own_prop (snd e) ''memoryUsage'')) es'
           \<and> orderbooksByNode s' = orderbooksByNode s"
  using assms
proof (induction es arbitrary: i s)
  case Nil
  then show ?case by simp
next
  case (Cons e es)
  from Cons.prems obtain h' where
    h': "perturb_health (rnd i) (rnd (Suc i)) now (snd e) = Some h'"
      "health_step (rnd i) (rnd (Suc i)) now (snd e) h'"
      "percent (own_prop h' ''cpuUsage'')" "percent (own_prop h' ''memoryUsage'')"
    using perturb_health_ok[of "snd e" "rnd i" "rnd (Suc i)" now] by auto
  from Cons.prems have "list_all (\<lambda>e. is_number (own_prop (snd e) ''cpuUsage'')
                    \<and> is_number (own_prop (snd e) ''memoryUsage'')) es" by simp
  from Cons.IH[OF this, of "i + 2" "broadcast (health_update (fst e) (JObj h') now) s"]
  obtain es' s' where
    r: "health_loop rnd (i + 2) now es (broadcast (health_update (fst e) (JObj h') now) s)
          = Some (es', s')"
       "length es' = length es"
       "\<forall>k < length es. fst (es' ! k) = fst (es ! k)
                 \<and> health_step (rnd (i + 2 + 2 * k)) (rnd (i + 2 + 2 * k + 1)) now
                      (snd (es ! k)) (snd (es' ! k))"
       "list_all (\<lambda>e. percent (own_prop (snd e) ''cpuUsage'')
                    \<and> percent (own_prop (snd e) ''memoryUsage'')) es'"
       "orderbooksByNode s' = orderbooksByNode s"
    by auto
  have e: "health_loop rnd i now (e # es) s = Some ((fst e, h') # es', s')"
    using h'(1) r(1) by simp
  have nth: "fst (((fst e, h') # es') ! k) = fst ((e # es) ! k)
           \<and> health_step (rnd (i + 2 * k)) (rnd (i + 2 * k + 1)) now
                (snd ((e # es) ! k)) (snd (((fst e, h') # es') ! k))"
    if "k < length (e # es)" for k
  proof (cases k)
    case 0
    then show ?thesis using h'(2) by simp
  next
    case (Suc k')
    then have "k' < length es" using that by simp
    with r(3) have "fst (es' ! k') = fst (es ! k')
        \<and> health_step (rnd (i + 2 + 2 * k')) (rnd (i + 2 + 2 * k' + 1)) now
             (snd (es ! k')) (snd (es' ! k'))" by blast
    then show ?thesis using Suc by (simp add: add.commute add.left_commute)
  qed
  show ?case
    using e nth r(2,4,5) h'(3,4) by (intro exI[of _ "(fst e, h') # es'"] exI[of _ s']) simp
qed

lemma side_shaped_cases:
  assumes "side_shaped v"
  obtains "v = JArr []" | first rest p where "v = JArr (JObj first # rest)"
    "own_prop first ''price'' = JNum p"
  using assms by (induction v rule: side_shaped.induct) (auto simp: is_number_iff)

lemma shift_top_ok:
  assumes "side_shaped (own_prop m side)" and "side \<noteq> best"
  shows "\<exists>j m'. shift_top side best rnd i m = Some (j, m') \<and> side_step side best rnd i m m' j
           \<and> (\<forall>k. k \<noteq> side \<and> k \<noteq> best \<longrightarrow> own_prop m' k = own_prop m k)
           \<and> side_shaped (own_prop m' side)"
  using assms(1)
proof (cases rule: side_shaped_cases)
  case 1
  then show ?thesis by (simp add: shift_top_def side_step_def)
next
  case (2 first rest p)
  let ?step = "if rnd i > 1 / 2 then 1 else - 1 :: real"
  let ?m' = "AList.update best (JNum (p + ?step))
               (AList.update side
                  (JArr (JObj (AList.update ''price'' (JNum (p + ?step)) first) # rest)) m)"
  have e: "shift_top side best rnd i m = Some (Suc i, ?m')"
    by (simp add: shift_top_def 2 Let_def)
  have "side_step side best rnd i m ?m' (Suc i)"
    unfolding side_step_def
    by (rule disjI2, rule exI[of _ first], rule exI[of _ rest], rule exI[of _ p])
       (use 2 assms(2) in simp)
  moreover have "side_shaped (own_prop ?m' side)"
    using assms(2) by simp
  moreover have "\<forall>k. k \<noteq> side \<and> k \<noteq> best \<longrightarrow> own_prop ?m' k = own_prop m k"
    by simp
  ultimately show ?thesis using e by blast
qed

lemma side_step_cong:
  assumes "side_step side best rnd i m m' j"
    and "own_prop a side = own_prop m side" "own_prop a best = own_prop m best"
    and "own_prop a' side = own_prop m' side" "own_prop a' best = own_prop m' best"
  shows "side_step side best rnd i a a' j"
  using assms by (simp add: side_step_def)

lemma perturb_orderbook_ok:
  assumes "market_shaped (own_prop b ''marketA'')"
  shows "\<exists>j b'. perturb_orderbook rnd i now b = Some (j, b') \<and> book_step rnd i now b b' j
           \<and> market_shaped (own_prop b' ''marketA'')"
proof -
  from assms obtain m where m: "own_prop b ''marketA'' = JObj m"
    and sb: "side_shaped (own_prop m ''bids'')" and sa: "side_shaped (own_prop m ''asks'')"
    by (cases "own_prop b ''marketA''") auto
  from shift_top_ok[OF sb, of "''bestBid''" rnd i] obtain j m1 where
    1: "shift_top ''bids'' ''bestBid'' rnd i m = Some (j, m1)"
       "side_step ''bids'' ''bestBid'' rnd i m m1 j"
       "\<forall>k. k \<noteq> ''bids'' \<and> k \<noteq> ''bestBid'' \<longrightarrow> own_prop m1 k = own_prop m k"
       "side_shaped (own_prop m1 ''bids'')"
    by auto
  have sa1: "side_shaped (own_prop m1 ''asks'')" using 1(3) sa by simp
  from shift_top_ok[OF sa1, of "''bestAsk''" rnd j] obtain k m2 where
    2: "shift_top ''asks'' ''bestAsk'' rnd j m1 = Some (k, m2)"
       "side_step ''asks'' ''bestAsk'' rnd j m1 m2 k"
       "\<forall>k. k \<noteq> ''asks'' \<and> k \<noteq> ''bestAsk'' \<longrightarrow> own_prop m2 k = own_prop m1 k"
       "side_shaped (own_prop m2 ''asks'')"
    by auto
  let ?b' = "AList.update ''lastUpdate'' (JDate now) (AList.update ''marketA'' (JObj m2) b)"
  have e: "perturb_orderbook rnd i now b = Some (k, ?b')"
    by (simp add: perturb_orderbook_def m 1(1) 2(1))
  have bids: "side_step ''bids'' ''bestBid'' rnd i m m2 j"
    by (rule side_step_cong[OF 1(2)]) (use 2(3) in simp_all)
  have asks: "side_step ''asks'' ''bestAsk'' rnd j m m2 k"
    by (rule side_step_cong[OF 2(2)]) (use 1(3) in simp_all)
  have rest: "\<forall>key. key \<noteq> ''bids'' \<and> key \<noteq> ''bestBid'' \<and> key \<noteq> ''asks'' \<and> key \<noteq> ''bestAsk'' \<longrightarrow>
                own_prop m2 key = own_prop m key"
    using 1(3) 2(3) by simp
  have "book_step rnd i now b ?b' k"
    unfolding book_step_def
    by (rule exI[of _ m], rule exI[of _ m2], rule exI[of _ j]) (use m bids asks rest in simp)
  moreover have "market_shaped (own_prop ?b' ''marketA'')"
    using 1(4) 2(3,4) by simp
  ultimately show ?thesis using e by blast
qed

lemma orderbook_loop_ok:
  assumes "list_all (\<lambda>b. market_shaped (own_prop (snd b) ''marketA'')) bs"
  shows "\<exists>j bs' s'. orderbook_loop rnd i now nodeId bs s = Some (j, bs', s')
           \<and> books_step rnd i now bs bs' j
           \<and> list_all (\<lambda>b. market_shaped (own_prop (snd b) ''marketA'')) bs'
           \<and> healthData s' = healthData s"
  using assms
proof (induction bs arbitrary: i s)
  case Nil
  then show ?case by simp
next
  case (Cons b bs)
  from Cons.prems obtain j b' where
    b': "perturb_orderbook rnd i now (snd b) = Some (j, b')" "book_step rnd i now (snd b) b' j"
        "market_shaped (own_prop b' ''marketA'')"
    using perturb_orderbook_ok[of "snd b" rnd i now] by auto
  from Cons.prems have "list_all (\<lambda>b. market_shaped (own_prop (snd b) ''marketA'')) bs"
    by simp
  from Cons.IH[OF this, of j
      "broadcast (orderbook_update (fst b) nodeId (own_prop b' ''marketA'')
                    (own_prop b' ''marketB'') now) s"]
  obtain k bs' s' where
    r: "orderbook_loop rnd j now nodeId bs
          (broadcast (orderbook_update (fst b) nodeId (own_prop b' ''marketA'')
                        (own_prop b' ''marketB'') now) s) = Some (k, bs', s')"
       "books_step rnd j now bs bs' k"
       "list_all (\<lambda>b. market_shaped (own_prop (snd b) ''marketA'')) bs'"
       "healthData s' = healthData s"
    by auto
  have "books_step rnd i now (b # bs) ((fst b, b') # bs') k"
    using b'(2) r(2) by auto
  then show ?case using b' r by simp
qed

lemma node_loop_ok:
  assumes "list_all (\<lambda>n. list_all (\<lambda>b. market_shaped (own_prop (snd b) ''marketA'')) (snd n)) ns"
  shows "\<exists>j ns' s'. node_loop rnd i now ns s = Some (j, ns', s')
           \<and> nodes_step rnd i now ns ns' j
           \<and> list_all (\<lambda>n. list_all (\<lambda>b. market_shaped (own_prop (snd b) ''marketA'')) (snd n)) ns'
           \<and> healthData s' = healthData s"
  using assms
proof (induction ns arbitrary: i s)
  case Nil
  then show ?case by simp
next
  case (Cons n ns)
  from Cons.prems have "list_all (\<lambda>b. market_shaped (own_prop (snd b) ''marketA'')) (snd n)"
    by simp
  from orderbook_loop_ok[OF this, of rnd i now "fst n" s] obtain j bs' s1 where
    1: "orderbook_loop rnd i now (fst n) (snd n) s = Some (j, bs', s1)"
       "books_step rnd i now (snd n) bs' j"
       "list_all (\<lambda>b. market_shaped (own_prop (snd b) ''marketA'')) bs'"
       "healthData s1 = healthData s"
    by auto
  from Cons.prems
  have "list_all (\<lambda>n. list_all (\<lambda>b. market_shaped (own_prop (snd b) ''marketA'')) (snd n)) ns"
    by simp
  from Cons.IH[OF this, of j s1] obtain k ns' s2 where
    2: "node_loop rnd j now ns s1 = Some (k, ns', s2)"
       "nodes_step rnd j now ns ns' k"
       "list_all (\<lambda>n. list_all (\<lambda>b. market_shaped (own_prop (snd b) ''marketA'')) (snd n)) ns'"
       "healthData s2 = healthData s1"
    by auto
  have "nodes_step rnd i now (n # ns) ((fst n, bs') # ns') k"
    using 1(2) 2(2) by auto
  then show ?case using 1 2 by simp
qed

text \<open>
  C8. One tick of \<^verbatim>\<open>updateDemoData\<close> on a store of the demo shapes, where \<open>rnd n\<close> in
  [0, 1) is what the \<open>n\<close>-th call of \<^verbatim>\<open>Math.random()\<close> returns. The tick completes and keeps
  the shapes. The \<open>k\<close>-th health record keeps its node; its cpu percentage is the old one
  plus \<open>(rnd (2k) - 1/2) * 10\<close> and its memory percentage the old one plus
  \<open>(rnd (2k+1) - 1/2) * 5\<close>, each cut off at 0 and 100: steps of at most 5 and 2.5, down
  for a random number below 1/2 and up for one above, and results within [0, 100]. With
  \<open>g\<close> the number of draws made for the health records: when \<open>rnd g\<close> is not below 0.3,
  no order book changes; when it is, each order book in turn has, on the bid side and on
  the ask side of \<^verbatim>\<open>marketA\<close>, its first level (and no other) moved by 1, up when the next
  random number is above 1/2 and down otherwise, with \<^verbatim>\<open>bestBid\<close> and \<^verbatim>\<open>bestAsk\<close> set to
  the moved level's price; an empty side and \<^verbatim>\<open>marketB\<close> are left alone.
\<close>

theorem demo_tick_is_bounded:
  assumes "demo_shaped s" and "\<forall>n. 0 \<le> rnd n \<and> rnd n < 1"
  shows "\<exists>s'. updateDemoData rnd now s = Some s' \<and> demo_shaped s'
           \<and> length (healthData s') = length (healthData s)
           \<and> (\<forall>k < length (healthData s).
                 fst (healthData s' ! k) = fst (healthData s ! k)
               \<and> health_step (rnd (2 * k)) (rnd (2 * k + 1)) now
                    (snd (healthData s ! k)) (snd (healthData s' ! k))
               \<and> \<bar>(rnd (2 * k) - 1 / 2) * 10\<bar> \<le> 5
               \<and> \<bar>(rnd (2 * k + 1) - 1 / 2) * 5\<bar> \<le> 5 / 2)
           \<and> list_all (\<lambda>e. percent (own_prop (snd e) ''cpuUsage'')
                    \<and> percent (own_prop (snd e) ''memoryUsage'')) (healthData s')
           \<and> (\<not> rnd (2 * length (healthData s)) < 3 / 10 \<longrightarrow>
                 orderbooksByNode s' = orderbooksByNode s)
           \<and> (rnd (2 * length (healthData s)) < 3 / 10 \<longrightarrow>
                 (\<exists>j. nodes_step rnd (Suc (2 * length (healthData s))) now
                        (orderbooksByNode s) (orderbooksByNode s') j))"
proof -
  from assms(1) have hs: "list_all (\<lambda>e. is_number (own_prop (snd e) ''cpuUsage'')
                    \<and> is_number (own_prop (snd e) ''memoryUsage'')) (healthData s)"
    and bs: "list_all (\<lambda>n. list_all (\<lambda>b. market_shaped (own_prop (snd b) ''marketA'')) (snd n))
               (orderbooksByNode s)"
    by (simp_all add: demo_shaped_def)
  from health_loop_ok[OF hs, of rnd 0 now s] obtain es' s1 where
    1: "health_loop rnd 0 now (healthData s) s = Some (es', s1)"
       "length es' = length (healthData s)"
       "\<forall>k < length (healthData s). fst (es' ! k) = fst (healthData s ! k)
                 \<and> health_step (rnd (2 * k)) (rnd (2 * k + 1)) now
                      (snd (healthData s ! k)) (snd (es' ! k))"
       "list_all (\<lambda>e. percent (own_prop (snd e) ''cpuUsage'')
                    \<and> percent (own_prop (snd e) ''memoryUsage'')) es'"
       "orderbooksByNode s1 = orderbooksByNode s"
    by auto
  have shaped: "list_all (\<lambda>e. is_number (own_prop (snd e) ''cpuUsage'')
                    \<and> is_number (own_prop (snd e) ''memoryUsage'')) es'"
    using 1(4) by (auto simp: list_all_iff percent_is_number)
  have bounds: "\<bar>(rnd n - 1 / 2) * 10\<bar> \<le> 5 \<and> \<bar>(rnd n - 1 / 2) * 5\<bar> \<le> 5 / 2" for n
    using assms(2) step_bounds[of "rnd n"] by simp
  let ?s2 = "s1\<lparr>healthData := es'\<rparr>"
  let ?g = "2 * length (healthData s)"
  show ?thesis
  proof (cases "rnd ?g < 3 / 10")
    case False
    then have "updateDemoData rnd now s = Some ?s2"
      by (simp add: updateDemoData_def 1(1) Let_def)
    moreover have "demo_shaped ?s2"
      using shaped 1(5) bs by (simp add: demo_shaped_def)
    ultimately show ?thesis using 1(2,3,4,5) False bounds by simp
  next
    case True
    have "list_all (\<lambda>n. list_all (\<lambda>b. market_shaped (own_prop (snd b) ''marketA'')) (snd n))
            (orderbooksByNode ?s2)"
      using bs 1(5) by simp
    from node_loop_ok[OF this, of rnd "Suc ?g" now ?s2] obtain k ns' s3 where
      2: "node_loop rnd (Suc ?g) now (orderbooksByNode ?s2) ?s2 = Some (k, ns', s3)"
         "nodes_step rnd (Suc ?g) now (orderbooksByNode ?s2) ns' k"
         "list_all (\<lambda>n. list_all (\<lambda>b. market_shaped (own_prop (snd b) ''marketA'')) (snd n)) ns'"
         "healthData s3 = healthData ?s2"
      by auto
    have "updateDemoData rnd now s = Some (s3\<lparr>orderbooksByNode := ns'\<rparr>)"
      using True 2(1) by (simp add: updateDemoData_def 1(1) Let_def)
    moreover have "demo_shaped (s3\<lparr>orderbooksByNode := ns'\<rparr>)"
      using shaped 2(3,4) by (simp add: demo_shaped_def)
    moreover have "\<exists>j. nodes_step rnd (Suc ?g) now (orderbooksByNode s) ns' j"
      using 2(2) 1(5) by auto
    ultimately show ?thesis using 1(2,3,4) 2(4) True bounds by simp
  qed
qed

lemma demo_seed_shaped: "demo_shaped (startDemoMode 0 dash_init)"
  by (simp add: demo_shaped_def startDemoMode_def dash_init_def demo_health_def
        sampleOrderbook_def sampleOrderbook2_def demo_market_def level_def own_prop_def same_key_def)

lemma demo_tick_health_values:
  "map_option
     (\<lambda>s'. map (\<lambda>e. (fst e, own_prop (snd e) ''cpuUsage'', own_prop (snd e) ''memoryUsage''))
              (healthData s'))
     (updateDemoData (\<lambda>n. if even n then 1 / 5 else 4 / 5) 5000 (startDemoMode 0 dash_init))
   = Some [(''100.70.127.124'', JNum (211 / 5), JNum (693 / 10)),
           (''100.70.127.125'', JNum (291 / 10), JNum (279 / 5)),
           (''192.168.1.100'', JNum (51 / 2), JNum (218 / 5))]"
  by (simp add: updateDemoData_def startDemoMode_def dash_init_def demo_health_def
        sampleOrderbook_def sampleOrderbook2_def demo_market_def level_def own_prop_def same_key_def
        perturb_health_def perturb_orderbook_def shift_top_def clamp_percent_def Let_def
        broadcast_def)

lemma demo_tick_book_values:
  "map_option
     (\<lambda>s'. concat (map (\<lambda>n. map (\<lambda>b. (fst b,
                       case own_prop (snd b) ''marketA'' of
                         JObj m \<Rightarrow> [own_prop m ''bestBid'', own_prop m ''bestAsk'']
                       | _ \<Rightarrow> [])) (snd n)) (orderbooksByNode s')))
     (updateDemoData (\<lambda>n. if even n then 1 / 5 else 4 / 5) 5000 (startDemoMode 0 dash_init))
   = Some [(JStr ''DEMO_EVENT_001'', [JNum 46, JNum 46]),
           (JStr ''DEMO_EVENT_002'', [JNum 63, JNum 63])]"
  by (simp add: updateDemoData_def startDemoMode_def dash_init_def demo_health_def
        sampleOrderbook_def sampleOrderbook2_def demo_market_def level_def own_prop_def same_key_def
        perturb_health_def perturb_orderbook_def shift_top_def clamp_percent_def Let_def
        broadcast_def)

theorem demo_tick_is_bounded_witness:
  "demo_shaped (startDemoMode 0 dash_init)
   \<and> (\<forall>n. (0::real) \<le> (if even n then 1 / 5 else 4 / 5)
          \<and> (if even n then 1 / 5 else 4 / 5) < (1::real))
   \<and> map_option
        (\<lambda>s'. map (\<lambda>e. (fst e, own_prop (snd e) ''cpuUsage'', own_prop (snd e) ''memoryUsage''))
                 (healthData s'))
        (updateDemoData (\<lambda>n. if even n then 1 / 5 else 4 / 5) 5000 (startDemoMode 0 dash_init))
       = Some [(''100.70.127.124'', JNum (211 / 5), JNum (693 / 10)),
               (''100.70.127.125'', JNum (291 / 10), JNum (279 / 5)),
               (''192.168.1.100'', JNum (51 / 2), JNum (218 / 5))]
   \<and> map_option
        (\<lambda>s'. concat (map (\<lambda>n. map (\<lambda>b. (fst b,
                          case own_prop (snd b) ''marketA'' of
                            JObj m \<Rightarrow> [own_prop m ''bestBid'', own_prop m ''bestAsk'']
                          | _ \<Rightarrow> [])) (snd n)) (orderbooksByNode s')))
        (updateDemoData (\<lambda>n. if even n then 1 / 5 else 4 / 5) 5000 (startDemoMode 0 dash_init))
       = Some [(JStr ''DEMO_EVENT_001'', [JNum 46, JNum 46]),
               (JStr ''DEMO_EVENT_002'', [JNum 63, JNum 63])]"
  using demo_tick_is_bounded
    [of "startDemoMode 0 dash_init" "\<lambda>n. if even n then 1 / 5 else 4 / 5" 5000]
    demo_seed_shaped
  unfolding demo_tick_health_values demo_tick_book_values
  by simp

end
